theory Spec2Isabelle
  imports Main "HOL-Library.Word" "HOL-Library.Sublist"
begin

section \<open>Go values used by the rollout package\<close>

text \<open>
  The binaries are built for amd64 only (Makefile, target build-all), so Go's \<open>int\<close> is a
  64-bit two's complement integer: \<open>+\<close> wraps, and \<open>sint\<close> reads the value.
\<close>

type_synonym go_int = "64 word"

text \<open>
  A Go \<open>error\<close>: either an error of a collaborator, opaque but for its message, or the
  result of \<open>fmt.Errorf(prefix + "%w", err)\<close>, which keeps the wrapped error.
\<close>

datatype error = Err string | Errorf string error

fun ErrorText :: "error \<Rightarrow> string" where
  "ErrorText (Err m) = m"
| "ErrorText (Errorf p e) = p @ ErrorText e"

fun Unwrap :: "error \<Rightarrow> error option" where
  "Unwrap (Err m) = None"
| "Unwrap (Errorf p e) = Some e"

subsection \<open>Package strings\<close>

text \<open>
  A Go string is a sequence of bytes; \<open>char\<close> is a byte. \<open>strings.ToLower\<close> is modelled on
  ASCII text, where it maps \<open>A..Z\<close> to \<open>a..z\<close> and leaves every other byte alone.
  Kubernetes object names are ASCII (RFC 1123 subdomains).
\<close>

definition toLowerByte :: "char \<Rightarrow> char" where
  "toLowerByte c =
     (let n = (of_char c :: nat) in if 65 \<le> n \<and> n \<le> 90 then char_of (n + 32) else c)"

definition ToLower :: "string \<Rightarrow> string" where
  "ToLower s = map toLowerByte s"

text \<open>\<open>strings.Contains(s, substr)\<close>: \<open>substr\<close> occurs in \<open>s\<close> at some offset.\<close>

fun Contains :: "string \<Rightarrow> string \<Rightarrow> bool" where
  "Contains [] substr = (substr = [])"
| "Contains (c # s) substr = (prefix substr (c # s) \<or> Contains s substr)"

section \<open>Data model\<close>

text \<open>
  A workload object as the cluster returns it (\<open>appsv1.Deployment\<close>,
  \<open>appsv1.StatefulSet\<close>, \<open>appsv1.DaemonSet\<close>): \<open>Name\<close> is \<open>ObjectMeta.Name\<close>,
  \<open>Annotations\<close> is \<open>Spec.Template.ObjectMeta.Annotations\<close>, a Go map that may be nil
  (\<open>None\<close>), and \<open>Other\<close> stands for every remaining field of the object.
\<close>

record 'o workload =
  Name :: string
  Annotations :: "(string \<rightharpoonup> string) option"
  Other :: 'o

text \<open>\<open>time.Time\<close>, read as nanoseconds.\<close>

type_synonym time = int

text \<open>
  The calls the package makes to its collaborators, in order: the clock and the cluster
  API. A call to the clock is kept with the time it returned, an update with the object
  submitted and the error returned (\<open>None\<close> is nil).
\<close>

datatype 'o call =
    CallNow time
  | CallNamespacesList
  | CallDeploymentsList string
  | CallDeploymentsUpdate string "'o workload" "error option"
  | CallStatefulSetsList string
  | CallStatefulSetsUpdate string "'o workload" "error option"
  | CallDaemonSetsList string
  | CallDaemonSetsUpdate string "'o workload" "error option"

text \<open>
  \<open>kubernetes.Clientset\<close>: what each call answers, given the calls made so far (so the
  cluster may change between calls, and fail at any of them). A namespace listing is
  the list of the items' names, the only field \<open>Run\<close> reads.
\<close>

record 'o clientset =
  NamespacesList :: "'o call list \<Rightarrow> error + string list"
  DeploymentsList :: "'o call list \<Rightarrow> string \<Rightarrow> error + 'o workload list"
  DeploymentsUpdate :: "'o call list \<Rightarrow> string \<Rightarrow> 'o workload \<Rightarrow> error option"
  StatefulSetsList :: "'o call list \<Rightarrow> string \<Rightarrow> error + 'o workload list"
  StatefulSetsUpdate :: "'o call list \<Rightarrow> string \<Rightarrow> 'o workload \<Rightarrow> error option"
  DaemonSetsList :: "'o call list \<Rightarrow> string \<Rightarrow> error + 'o workload list"
  DaemonSetsUpdate :: "'o call list \<Rightarrow> string \<Rightarrow> 'o workload \<Rightarrow> error option"

text \<open>
  Package time: \<open>Now\<close> reads the clock, \<open>Format t layout\<close> is \<open>t.Format(layout)\<close> and
  \<open>DurationString d\<close> is \<open>d.String()\<close>. The two renderings are the library's.
\<close>

record 'o timepkg =
  Now :: "'o call list \<Rightarrow> time"
  Format :: "time \<Rightarrow> string \<Rightarrow> string"
  DurationString :: "int \<Rightarrow> string"

definition RFC3339 :: string where
  "RFC3339 = ''2006-01-02T15:04:05Z07:00''"

definition restartedAt :: string where
  "restartedAt = ''kubectl.kubernetes.io/restartedAt''"

text \<open>Output of the logger \<open>rc.log\<close>: level, message and fields of each entry.\<close>

datatype level = InfoLevel | ErrorLevel

datatype fieldval = FString string | FError error | FInt go_int

datatype entry = Entry level string "(string \<times> fieldval) list"

record rolloutMetadata =
  StartTime :: time
  DeploymentsRestarted :: go_int
  StatefulSetsRestarted :: go_int
  DaemonSetsRestarted :: go_int
  NamespacesProcessed :: go_int
  Errors :: "error list"

record 'o rolloutClient =
  podFilter :: string
  cs :: "'o clientset"

text \<open>
  What a run changes: the calls made so far, the entries logged so far and
  \<open>*rc.metadata\<close>.
\<close>

record 'o state =
  calls :: "'o call list"
  logged :: "entry list"
  metadata :: rolloutMetadata

definition totalRestarted :: "rolloutMetadata \<Rightarrow> go_int" where
  "totalRestarted rm =
     DeploymentsRestarted rm + StatefulSetsRestarted rm + DaemonSetsRestarted rm"

text \<open>
  \<open>duration\<close> is \<open>time.Since(rm.StartTime)\<close>, for the clock reading \<open>now\<close>. It is only
  logged, through \<open>DurationString\<close>.
\<close>

definition duration :: "rolloutMetadata \<Rightarrow> time \<Rightarrow> int" where
  "duration rm now = now - StartTime rm"

section \<open>The per-kind restart procedures\<close>

text \<open>The loop of \<open>restartDeployments\<close> over \<open>deployments.Items\<close>, with its counter.\<close>

fun restartDeploymentsItems ::
  "'o timepkg \<Rightarrow> 'o rolloutClient \<Rightarrow> string \<Rightarrow> 'o workload list \<Rightarrow> go_int \<Rightarrow> 'o state
     \<Rightarrow> go_int \<times> 'o state" where
  "restartDeploymentsItems tm rc namespace [] count s = (count, s)"
| "restartDeploymentsItems tm rc namespace (deployment # items) count s =
     (if Contains (ToLower (Name deployment)) (podFilter rc) then
        let s1 = s\<lparr>logged := logged s @ [Entry InfoLevel ''Restarting deployment''
                   [(''namespace'', FString namespace),
                    (''deployment'', FString (Name deployment))]]\<rparr>;
            annotations = (case Annotations deployment of None \<Rightarrow> Map.empty | Some m \<Rightarrow> m);
            now = Now tm (calls s1);
            s2 = s1\<lparr>calls := calls s1 @ [CallNow now]\<rparr>;
            deployment' = deployment\<lparr>Annotations :=
                   Some (annotations(restartedAt \<mapsto> Format tm now RFC3339))\<rparr>;
            err = DeploymentsUpdate (cs rc) (calls s2) namespace deployment';
            s3 = s2\<lparr>calls := calls s2 @ [CallDeploymentsUpdate namespace deployment' err]\<rparr>
        in (case err of
              Some e \<Rightarrow>
                restartDeploymentsItems tm rc namespace items count
                  (s3\<lparr>logged := logged s3 @ [Entry ErrorLevel ''Failed to restart deployment''
                     [(''namespace'', FString namespace),
                      (''deployment'', FString (Name deployment')),
                      (''error'', FError e)]]\<rparr>)
            | None \<Rightarrow> restartDeploymentsItems tm rc namespace items (count + 1) s3)
      else restartDeploymentsItems tm rc namespace items count s)"

definition restartDeployments ::
  "'o timepkg \<Rightarrow> 'o rolloutClient \<Rightarrow> string \<Rightarrow> 'o state
     \<Rightarrow> (go_int \<times> error option) \<times> 'o state" where
  "restartDeployments tm rc namespace s =
     (let deployments = DeploymentsList (cs rc) (calls s) namespace;
          s1 = s\<lparr>calls := calls s @ [CallDeploymentsList namespace]\<rparr>
      in case deployments of
           Inl err \<Rightarrow> ((0, Some err), s1)
         | Inr items \<Rightarrow>
             (case restartDeploymentsItems tm rc namespace items 0 s1 of
                (count, s2) \<Rightarrow> ((count, None), s2)))"

text \<open>The block of the loop body of \<open>Run\<close> that restarts the deployments of one namespace.\<close>

definition Run_deployments ::
  "'o timepkg \<Rightarrow> 'o rolloutClient \<Rightarrow> string \<Rightarrow> 'o state \<Rightarrow> 'o state" where
  "Run_deployments tm rc ns s =
     (case restartDeployments tm rc ns s of
        ((deploymentCount, err), s1) \<Rightarrow>
          (case err of
             Some e \<Rightarrow>
               s1\<lparr>metadata := (metadata s1)\<lparr>Errors := Errors (metadata s1) @
                      [Errorf (''deployments in '' @ ns @ '': '') e]\<rparr>,
                  logged := logged s1 @ [Entry ErrorLevel ''Failed to restart deployments''
                      [(''namespace'', FString ns), (''error'', FError e)]]\<rparr>
           | None \<Rightarrow>
               s1\<lparr>metadata := (metadata s1)\<lparr>DeploymentsRestarted :=
                      DeploymentsRestarted (metadata s1) + deploymentCount\<rparr>\<rparr>))"

text \<open>The loop of \<open>restartStatefulSets\<close> over \<open>statefulSets.Items\<close>, with its counter.\<close>

fun restartStatefulSetsItems ::
  "'o timepkg \<Rightarrow> 'o rolloutClient \<Rightarrow> string \<Rightarrow> 'o workload list \<Rightarrow> go_int \<Rightarrow> 'o state
     \<Rightarrow> go_int \<times> 'o state" where
  "restartStatefulSetsItems tm rc namespace [] count s = (count, s)"
| "restartStatefulSetsItems tm rc namespace (sts # items) count s =
     (if Contains (ToLower (Name sts)) (podFilter rc) then
        let s1 = s\<lparr>logged := logged s @ [Entry InfoLevel ''Restarting statefulset''
                   [(''namespace'', FString namespace),
                    (''statefulset'', FString (Name sts))]]\<rparr>;
            annotations = (case Annotations sts of None \<Rightarrow> Map.empty | Some m \<Rightarrow> m);
            now = Now tm (calls s1);
            s2 = s1\<lparr>calls := calls s1 @ [CallNow now]\<rparr>;
            sts' = sts\<lparr>Annotations :=
                   Some (annotations(restartedAt \<mapsto> Format tm now RFC3339))\<rparr>;
            err = StatefulSetsUpdate (cs rc) (calls s2) namespace sts';
            s3 = s2\<lparr>calls := calls s2 @ [CallStatefulSetsUpdate namespace sts' err]\<rparr>
        in (case err of
              Some e \<Rightarrow>
                restartStatefulSetsItems tm rc namespace items count
                  (s3\<lparr>logged := logged s3 @ [Entry ErrorLevel ''Failed to restart statefulset''
                     [(''namespace'', FString namespace),
                      (''statefulset'', FString (Name sts')),
                      (''error'', FError e)]]\<rparr>)
            | None \<Rightarrow> restartStatefulSetsItems tm rc namespace items (count + 1) s3)
      else restartStatefulSetsItems tm rc namespace items count s)"

definition restartStatefulSets ::
  "'o timepkg \<Rightarrow> 'o rolloutClient \<Rightarrow> string \<Rightarrow> 'o state
     \<Rightarrow> (go_int \<times> error option) \<times> 'o state" where
  "restartStatefulSets tm rc namespace s =
     (let statefulSets = StatefulSetsList (cs rc) (calls s) namespace;
          s1 = s\<lparr>calls := calls s @ [CallStatefulSetsList namespace]\<rparr>
      in case statefulSets of
           Inl err \<Rightarrow> ((0, Some err), s1)
         | Inr items \<Rightarrow>
             (case restartStatefulSetsItems tm rc namespace items 0 s1 of
                (count, s2) \<Rightarrow> ((count, None), s2)))"

text \<open>The block of the loop body of \<open>Run\<close> that restarts the statefulsets of one namespace.\<close>

definition Run_statefulsets ::
  "'o timepkg \<Rightarrow> 'o rolloutClient \<Rightarrow> string \<Rightarrow> 'o state \<Rightarrow> 'o state" where
  "Run_statefulsets tm rc ns s =
     (case restartStatefulSets tm rc ns s of
        ((statefulSetCount, err), s1) \<Rightarrow>
          (case err of
             Some e \<Rightarrow>
               s1\<lparr>metadata := (metadata s1)\<lparr>Errors := Errors (metadata s1) @
                      [Errorf (''statefulsets in '' @ ns @ '': '') e]\<rparr>,
                  logged := logged s1 @ [Entry ErrorLevel ''Failed to restart statefulsets''
                      [(''namespace'', FString ns), (''error'', FError e)]]\<rparr>
           | None \<Rightarrow>
               s1\<lparr>metadata := (metadata s1)\<lparr>StatefulSetsRestarted :=
                      StatefulSetsRestarted (metadata s1) + statefulSetCount\<rparr>\<rparr>))"

text \<open>The loop of \<open>restartDaemonSets\<close> over \<open>daemonSets.Items\<close>, with its counter.\<close>

fun restartDaemonSetsItems ::
  "'o timepkg \<Rightarrow> 'o rolloutClient \<Rightarrow> string \<Rightarrow> 'o workload list \<Rightarrow> go_int \<Rightarrow> 'o state
     \<Rightarrow> go_int \<times> 'o state" where
  "restartDaemonSetsItems tm rc namespace [] count s = (count, s)"
| "restartDaemonSetsItems tm rc namespace (ds # items) count s =
     (if Contains (ToLower (Name ds)) (podFilter rc) then
        let s1 = s\<lparr>logged := logged s @ [Entry InfoLevel ''Restarting daemonset''
                   [(''namespace'', FString namespace),
                    (''daemonset'', FString (Name ds))]]\<rparr>;
            annotations = (case Annotations ds of None \<Rightarrow> Map.empty | Some m \<Rightarrow> m);
            now = Now tm (calls s1);
            s2 = s1\<lparr>calls := calls s1 @ [CallNow now]\<rparr>;
            ds' = ds\<lparr>Annotations :=
                   Some (annotations(restartedAt \<mapsto> Format tm now RFC3339))\<rparr>;
            err = DaemonSetsUpdate (cs rc) (calls s2) namespace ds';
            s3 = s2\<lparr>calls := calls s2 @ [CallDaemonSetsUpdate namespace ds' err]\<rparr>
        in (case err of
              Some e \<Rightarrow>
                restartDaemonSetsItems tm rc namespace items count
                  (s3\<lparr>logged := logged s3 @ [Entry ErrorLevel ''Failed to restart daemonset''
                     [(''namespace'', FString namespace),
                      (''daemonset'', FString (Name ds')),
                      (''error'', FError e)]]\<rparr>)
            | None \<Rightarrow> restartDaemonSetsItems tm rc namespace items (count + 1) s3)
      else restartDaemonSetsItems tm rc namespace items count s)"

definition restartDaemonSets ::
  "'o timepkg \<Rightarrow> 'o rolloutClient \<Rightarrow> string \<Rightarrow> 'o state
     \<Rightarrow> (go_int \<times> error option) \<times> 'o state" where
  "restartDaemonSets tm rc namespace s =
     (let daemonSets = DaemonSetsList (cs rc) (calls s) namespace;
          s1 = s\<lparr>calls := calls s @ [CallDaemonSetsList namespace]\<rparr>
      in case daemonSets of
           Inl err \<Rightarrow> ((0, Some err), s1)
         | Inr items \<Rightarrow>
             (case restartDaemonSetsItems tm rc namespace items 0 s1 of
                (count, s2) \<Rightarrow> ((count, None), s2)))"

text \<open>The block of the loop body of \<open>Run\<close> that restarts the daemonsets of one namespace.\<close>

definition Run_daemonsets ::
  "'o timepkg \<Rightarrow> 'o rolloutClient \<Rightarrow> string \<Rightarrow> 'o state \<Rightarrow> 'o state" where
  "Run_daemonsets tm rc ns s =
     (case restartDaemonSets tm rc ns s of
        ((daemonSetCount, err), s1) \<Rightarrow>
          (case err of
             Some e \<Rightarrow>
               s1\<lparr>metadata := (metadata s1)\<lparr>Errors := Errors (metadata s1) @
                      [Errorf (''daemonsets in '' @ ns @ '': '') e]\<rparr>,
                  logged := logged s1 @ [Entry ErrorLevel ''Failed to restart daemonsets''
                      [(''namespace'', FString ns), (''error'', FError e)]]\<rparr>
           | None \<Rightarrow>
               s1\<lparr>metadata := (metadata s1)\<lparr>DaemonSetsRestarted :=
                      DaemonSetsRestarted (metadata s1) + daemonSetCount\<rparr>\<rparr>))"

section \<open>Run\<close>

text \<open>The head of the loop body of \<open>Run\<close>: count the namespace and log it.\<close>

definition Run_enter :: "string \<Rightarrow> 'o state \<Rightarrow> 'o state" where
  "Run_enter ns s =
     s\<lparr>metadata := (metadata s)\<lparr>NamespacesProcessed := NamespacesProcessed (metadata s) + 1\<rparr>,
       logged := logged s @ [Entry InfoLevel ''Checking namespace'' [(''namespace'', FString ns)]]\<rparr>"

definition Run_namespace ::
  "'o timepkg \<Rightarrow> 'o rolloutClient \<Rightarrow> string \<Rightarrow> 'o state \<Rightarrow> 'o state" where
  "Run_namespace tm rc ns s =
     Run_daemonsets tm rc ns (Run_statefulsets tm rc ns (Run_deployments tm rc ns (Run_enter ns s)))"

text \<open>The loop of \<open>Run\<close> over \<open>namespaces.Items\<close>.\<close>

fun Run_namespaces ::
  "'o timepkg \<Rightarrow> 'o rolloutClient \<Rightarrow> string list \<Rightarrow> 'o state \<Rightarrow> 'o state" where
  "Run_namespaces tm rc [] s = s"
| "Run_namespaces tm rc (ns # items) s = Run_namespaces tm rc items (Run_namespace tm rc ns s)"

text \<open>The summary entry; \<open>duration()\<close> reads the clock once more.\<close>

definition summary :: "'o timepkg \<Rightarrow> rolloutMetadata \<Rightarrow> time \<Rightarrow> entry" where
  "summary tm rm now = Entry InfoLevel ''Rollout completed''
     [(''total_restarted'', FInt (totalRestarted rm)),
      (''deployments'', FInt (DeploymentsRestarted rm)),
      (''statefulsets'', FInt (StatefulSetsRestarted rm)),
      (''daemonsets'', FInt (DaemonSetsRestarted rm)),
      (''namespaces_checked'', FInt (NamespacesProcessed rm)),
      (''errors_count'', FInt (of_nat (length (Errors rm)))),
      (''duration'', FString (DurationString tm (duration rm now)))]"

definition Run_summary :: "'o timepkg \<Rightarrow> 'o state \<Rightarrow> 'o state" where
  "Run_summary tm s =
     (let now = Now tm (calls s)
      in s\<lparr>calls := calls s @ [CallNow now],
           logged := logged s @ [summary tm (metadata s) now]\<rparr>)"

text \<open>The fresh metadata of a run that starts at \<open>start\<close>.\<close>

definition newMetadata :: "time \<Rightarrow> rolloutMetadata" where
  "newMetadata start =
     \<lparr>StartTime = start, DeploymentsRestarted = 0, StatefulSetsRestarted = 0,
      DaemonSetsRestarted = 0, NamespacesProcessed = 0, Errors = []\<rparr>"

definition Run_init :: "'o timepkg \<Rightarrow> 'o state \<Rightarrow> 'o state" where
  "Run_init tm s =
     (let start = Now tm (calls s)
      in s\<lparr>calls := calls s @ [CallNow start], metadata := newMetadata start\<rparr>)"

text \<open>
  \<open>Run\<close>, from the state \<open>s\<close> it is called in (whatever \<open>rc.metadata\<close> held is replaced):
  the error returned (\<open>None\<close> is nil) and the state it leaves.
\<close>

definition Run :: "'o timepkg \<Rightarrow> 'o rolloutClient \<Rightarrow> 'o state \<Rightarrow> error option \<times> 'o state" where
  "Run tm rc s =
     (let s0 = Run_init tm s;
          namespaces = NamespacesList (cs rc) (calls s0);
          s1 = s0\<lparr>calls := calls s0 @ [CallNamespacesList]\<rparr>
      in case namespaces of
           Inl err \<Rightarrow> (Some (Errorf ''failed to list namespaces: '' err), s1)
         | Inr items \<Rightarrow> (None, Run_summary tm (Run_namespaces tm rc items s1)))"

section \<open>Reading the trace of a run\<close>

text \<open>The listing calls of a trace.\<close>

fun isList :: "'o call \<Rightarrow> bool" where
  "isList CallNamespacesList = True"
| "isList (CallDeploymentsList ns) = True"
| "isList (CallStatefulSetsList ns) = True"
| "isList (CallDaemonSetsList ns) = True"
| "isList c = False"

definition listCalls :: "'o call list \<Rightarrow> 'o call list" where
  "listCalls h = filter isList h"

text \<open>The updates that succeeded.\<close>

definition succeeded :: "('o workload \<times> error option) list \<Rightarrow> ('o workload \<times> error option) list" where
  "succeeded us = filter (\<lambda>(w, r). r = None) us"

text \<open>
  A stretch of trace \<open>new\<close> that follows the calls \<open>h\<close> is consistent with the
  collaborators when every clock reading and every update result kept in it is what
  the collaborator answers at that point.
\<close>

fun consistent :: "'o timepkg \<Rightarrow> 'o clientset \<Rightarrow> 'o call list \<Rightarrow> 'o call list \<Rightarrow> bool" where
  "consistent tm c h [] = True"
| "consistent tm c h (CallNow t # new) =
     (t = Now tm h \<and> consistent tm c (h @ [CallNow t]) new)"
| "consistent tm c h (CallDeploymentsUpdate ns w r # new) =
     (r = DeploymentsUpdate c h ns w \<and>
      consistent tm c (h @ [CallDeploymentsUpdate ns w r]) new)"
| "consistent tm c h (CallStatefulSetsUpdate ns w r # new) =
     (r = StatefulSetsUpdate c h ns w \<and>
      consistent tm c (h @ [CallStatefulSetsUpdate ns w r]) new)"
| "consistent tm c h (CallDaemonSetsUpdate ns w r # new) =
     (r = DaemonSetsUpdate c h ns w \<and>
      consistent tm c (h @ [CallDaemonSetsUpdate ns w r]) new)"
| "consistent tm c h (x # new) = consistent tm c (h @ [x]) new"

text \<open>
  A state is tallied when each restart counter is a number of updates, and the three
  numbers together are no more than the calls made so far.
\<close>

definition tallied :: "'o state \<Rightarrow> bool" where
  "tallied st =
     (\<exists>a b c. DeploymentsRestarted (metadata st) = of_nat a \<and>
        StatefulSetsRestarted (metadata st) = of_nat b \<and>
        DaemonSetsRestarted (metadata st) = of_nat c \<and>
        a + b + c \<le> length (calls st))"

text \<open>The deployments submitted for update in a trace, each with the error the update returned.\<close>

fun deploymentUpdates :: "'o call list \<Rightarrow> ('o workload \<times> error option) list" where
  "deploymentUpdates [] = []"
| "deploymentUpdates (CallDeploymentsUpdate ns w r # rest) = (w, r) # deploymentUpdates rest"
| "deploymentUpdates (c # rest) = deploymentUpdates rest"

text \<open>
  The calls one pass over a listing makes for the selected deployments \<open>w\<close>, in order, each
  with the clock reading \<open>t\<close> taken for it and the error \<open>r\<close> its update returned.
\<close>

definition deploymentCalls ::
  "'o timepkg \<Rightarrow> string \<Rightarrow> ('o workload \<times> time \<times> error option) list \<Rightarrow> 'o call list" where
  "deploymentCalls tm ns trs = concat (map (\<lambda>(w, t, r).
     [CallNow t,
      CallDeploymentsUpdate ns
        (w\<lparr>Annotations := Some ((case Annotations w of None \<Rightarrow> Map.empty | Some m \<Rightarrow> m)
              (restartedAt \<mapsto> Format tm t RFC3339))\<rparr>) r]) trs)"

text \<open>The entries the same pass logs: one for each selected workload, and one more if its update failed.\<close>

definition deploymentLogs :: "string \<Rightarrow> ('o workload \<times> time \<times> error option) list \<Rightarrow> entry list" where
  "deploymentLogs ns trs = concat (map (\<lambda>(w, t, r).
     Entry InfoLevel ''Restarting deployment''
       [(''namespace'', FString ns), (''deployment'', FString (Name w))] #
     (case r of
        None \<Rightarrow> []
      | Some e \<Rightarrow>
          [Entry ErrorLevel ''Failed to restart deployment''
             [(''namespace'', FString ns), (''deployment'', FString (Name w)),
              (''error'', FError e)]])) trs)"

text \<open>The statefulsets submitted for update in a trace, each with the error the update returned.\<close>

fun stsUpdates :: "'o call list \<Rightarrow> ('o workload \<times> error option) list" where
  "stsUpdates [] = []"
| "stsUpdates (CallStatefulSetsUpdate ns w r # rest) = (w, r) # stsUpdates rest"
| "stsUpdates (c # rest) = stsUpdates rest"

text \<open>
  The calls one pass over a listing makes for the selected statefulsets \<open>w\<close>, in order, each
  with the clock reading \<open>t\<close> taken for it and the error \<open>r\<close> its update returned.
\<close>

definition stsCalls ::
  "'o timepkg \<Rightarrow> string \<Rightarrow> ('o workload \<times> time \<times> error option) list \<Rightarrow> 'o call list" where
  "stsCalls tm ns trs = concat (map (\<lambda>(w, t, r).
     [CallNow t,
      CallStatefulSetsUpdate ns
        (w\<lparr>Annotations := Some ((case Annotations w of None \<Rightarrow> Map.empty | Some m \<Rightarrow> m)
              (restartedAt \<mapsto> Format tm t RFC3339))\<rparr>) r]) trs)"

text \<open>The entries the same pass logs: one for each selected workload, and one more if its update failed.\<close>

definition stsLogs :: "string \<Rightarrow> ('o workload \<times> time \<times> error option) list \<Rightarrow> entry list" where
  "stsLogs ns trs = concat (map (\<lambda>(w, t, r).
     Entry InfoLevel ''Restarting statefulset''
       [(''namespace'', FString ns), (''statefulset'', FString (Name w))] #
     (case r of
        None \<Rightarrow> []
      | Some e \<Rightarrow>
          [Entry ErrorLevel ''Failed to restart statefulset''
             [(''namespace'', FString ns), (''statefulset'', FString (Name w)),
              (''error'', FError e)]])) trs)"

text \<open>The daemonsets submitted for update in a trace, each with the error the update returned.\<close>

fun dsUpdates :: "'o call list \<Rightarrow> ('o workload \<times> error option) list" where
  "dsUpdates [] = []"
| "dsUpdates (CallDaemonSetsUpdate ns w r # rest) = (w, r) # dsUpdates rest"
| "dsUpdates (c # rest) = dsUpdates rest"

text \<open>
  The calls one pass over a listing makes for the selected daemonsets \<open>w\<close>, in order, each
  with the clock reading \<open>t\<close> taken for it and the error \<open>r\<close> its update returned.
\<close>

definition dsCalls ::
  "'o timepkg \<Rightarrow> string \<Rightarrow> ('o workload \<times> time \<times> error option) list \<Rightarrow> 'o call list" where
  "dsCalls tm ns trs = concat (map (\<lambda>(w, t, r).
     [CallNow t,
      CallDaemonSetsUpdate ns
        (w\<lparr>Annotations := Some ((case Annotations w of None \<Rightarrow> Map.empty | Some m \<Rightarrow> m)
              (restartedAt \<mapsto> Format tm t RFC3339))\<rparr>) r]) trs)"

text \<open>The entries the same pass logs: one for each selected workload, and one more if its update failed.\<close>

definition dsLogs :: "string \<Rightarrow> ('o workload \<times> time \<times> error option) list \<Rightarrow> entry list" where
  "dsLogs ns trs = concat (map (\<lambda>(w, t, r).
     Entry InfoLevel ''Restarting daemonset''
       [(''namespace'', FString ns), (''daemonset'', FString (Name w))] #
     (case r of
        None \<Rightarrow> []
      | Some e \<Rightarrow>
          [Entry ErrorLevel ''Failed to restart daemonset''
             [(''namespace'', FString ns), (''daemonset'', FString (Name w)),
              (''error'', FError e)]])) trs)"

text \<open>
  The states a run passes through. The metadata changes only in \<open>Run\<close> itself (the
  restart procedures leave it alone), so these are the states after each statement of
  \<open>Run\<close> that may change it: for each namespace, the state before it, after counting it,
  and after each of its three blocks.
\<close>

fun Run_points ::
  "'o timepkg \<Rightarrow> 'o rolloutClient \<Rightarrow> string list \<Rightarrow> 'o state \<Rightarrow> 'o state list" where
  "Run_points tm rc [] s = [s]"
| "Run_points tm rc (ns # items) s =
     (let s1 = Run_enter ns s;
          s2 = Run_deployments tm rc ns s1;
          s3 = Run_statefulsets tm rc ns s2
      in s # s1 # s2 # s3 # Run_points tm rc items (Run_daemonsets tm rc ns s3))"

definition RunPoints :: "'o timepkg \<Rightarrow> 'o rolloutClient \<Rightarrow> 'o state \<Rightarrow> 'o state list" where
  "RunPoints tm rc s =
     (let s0 = Run_init tm s;
          namespaces = NamespacesList (cs rc) (calls s0);
          s1 = s0\<lparr>calls := calls s0 @ [CallNamespacesList]\<rparr>
      in s0 # s1 #
         (case namespaces of
            Inl err \<Rightarrow> []
          | Inr items \<Rightarrow>
              Run_points tm rc items s1 @ [Run_summary tm (Run_namespaces tm rc items s1)]))"

section \<open>An example cluster\<close>

text \<open>
  Two namespaces. In \<open>ns1\<close> the deployments cannot be listed, there are three stateful
  sets, of which \<open>db-b\<close> cannot be updated, and no daemon sets. In \<open>ns2\<close> there are two
  deployments, no stateful sets and one daemon set that already has annotations. The
  clock counts the calls made so far.
\<close>

definition exampleWorkload :: "string \<Rightarrow> unit workload" where
  "exampleWorkload n = \<lparr>Name = n, Annotations = None, Other = ()\<rparr>"

definition exampleTime :: "unit timepkg" where
  "exampleTime =
     \<lparr>Now = (\<lambda>h. int (length h)),
      Format = (\<lambda>t layout. ''2024-05-01T10:00:00Z''),
      DurationString = (\<lambda>d. ''1s'')\<rparr>"

definition exampleCluster :: "unit clientset" where
  "exampleCluster =
     \<lparr>NamespacesList = (\<lambda>h. Inr [''ns1'', ''ns2'']),
      DeploymentsList = (\<lambda>h ns.
         if ns = ''ns1'' then Inl (Err ''forbidden'')
         else Inr [exampleWorkload ''db-primary'', exampleWorkload ''web'']),
      DeploymentsUpdate = (\<lambda>h ns w. None),
      StatefulSetsList = (\<lambda>h ns.
         if ns = ''ns1''
         then Inr [exampleWorkload ''db-a'', exampleWorkload ''db-b'', exampleWorkload ''db-c'']
         else Inr []),
      StatefulSetsUpdate = (\<lambda>h ns w. if Name w = ''db-b'' then Some (Err ''conflict'') else None),
      DaemonSetsList = (\<lambda>h ns.
         if ns = ''ns1'' then Inr []
         else Inr [\<lparr>Name = ''db-agent'', Annotations = Some [''team'' \<mapsto> ''data''], Other = ()\<rparr>]),
      DaemonSetsUpdate = (\<lambda>h ns w. None)\<rparr>"

definition exampleClient :: "unit rolloutClient" where
  "exampleClient = \<lparr>podFilter = ''db'', cs = exampleCluster\<rparr>"

definition exampleStart :: "unit state" where
  "exampleStart = \<lparr>calls = [], logged = [], metadata = newMetadata 0\<rparr>"

text \<open>The same cluster when no kind can be listed in \<open>ns1\<close>.\<close>

definition exampleOutage :: "unit rolloutClient" where
  "exampleOutage =
     \<lparr>podFilter = ''db'',
      cs = exampleCluster
        \<lparr>StatefulSetsList := (\<lambda>h ns. if ns = ''ns1'' then Inl (Err ''forbidden'') else Inr []),
         DaemonSetsList := (\<lambda>h ns.
           if ns = ''ns1'' then Inl (Err ''forbidden'') else DaemonSetsList exampleCluster h ns)\<rparr>\<rparr>"

text \<open>The same cluster when the namespaces cannot be listed.\<close>

definition exampleDown :: "unit rolloutClient" where
  "exampleDown =
     \<lparr>podFilter = ''db'',
      cs = exampleCluster\<lparr>NamespacesList := (\<lambda>h. Inl (Err ''timeout''))\<rparr>\<rparr>"

text \<open>The same cluster when it has no namespace.\<close>

definition exampleEmpty :: "unit rolloutClient" where
  "exampleEmpty =
     \<lparr>podFilter = ''db'',
      cs = exampleCluster\<lparr>NamespacesList := (\<lambda>h. Inr [])\<rparr>\<rparr>"

text \<open>The same cluster, asked for \<open>DB\<close> in capitals.\<close>

definition exampleCapitals :: "unit rolloutClient" where
  "exampleCapitals = \<lparr>podFilter = ''DB'', cs = exampleCluster\<rparr>"

section \<open>Properties of the string functions\<close>

lemma Contains_empty: "Contains s []"
  by (induction s) simp_all

lemma Contains_sublist: "Contains s substr = sublist substr s"
  by (induction s) (auto simp: sublist_Cons_right)

lemma toLowerByte_idem: "toLowerByte (toLowerByte c) = toLowerByte c"
  by (simp add: toLowerByte_def Let_def)

lemma ToLower_idem: "ToLower (ToLower s) = ToLower s"
  by (simp add: ToLower_def toLowerByte_idem)

lemma ToLower_append: "ToLower (xs @ ys) = ToLower xs @ ToLower ys"
  by (simp add: ToLower_def)

lemma Contains_ToLower_lowercase:
  assumes "Contains (ToLower n) f"
  shows "ToLower f = f"
proof -
  from assms obtain ps ss where e: "ToLower n = ps @ f @ ss"
    by (auto simp: Contains_sublist sublist_def)
  have "ToLower (ps @ f @ ss) = ps @ f @ ss"
    using ToLower_idem [of n] unfolding e .
  then have "ToLower ps @ ToLower f @ ToLower ss = ps @ f @ ss"
    by (simp add: ToLower_append)
  moreover have "length (ToLower ps) = length ps" "length (ToLower f) = length f"
    by (simp_all add: ToLower_def)
  ultimately show ?thesis by (metis append_eq_append_conv)
qed

section \<open>Properties of Go's int\<close>

lemma sint_of_nat_small: "n < 2 ^ 63 \<Longrightarrow> sint (of_nat n :: go_int) = int n"
proof -
  assume "n < 2 ^ 63"
  then have "int n < 2 ^ 63"
    by (metis of_nat_less_iff of_nat_numeral of_nat_power)
  then show ?thesis
    by (simp add: signed_of_nat signed_take_bit_int_eq_self)
qed

section \<open>Evaluating the example cluster\<close>

lemma ToLower_examples:
  "ToLower ''db-primary'' = ''db-primary''"
  "ToLower ''web'' = ''web''"
  "ToLower ''db-a'' = ''db-a''"
  "ToLower ''db-b'' = ''db-b''"
  "ToLower ''db-c'' = ''db-c''"
  "ToLower ''db-agent'' = ''db-agent''"
  by code_simp+

lemma ToLower_DB: "ToLower ''DB'' = ''db''"
  by code_simp

lemmas example_defs = exampleClient_def exampleCluster_def exampleStart_def exampleTime_def
  exampleWorkload_def newMetadata_def

section \<open>Reading the trace: auxiliary facts\<close>

lemma listCalls_append: "listCalls (xs @ ys) = listCalls xs @ listCalls ys"
  by (simp add: listCalls_def)

lemma consistent_append:
  "consistent tm c h (xs @ ys) = (consistent tm c h xs \<and> consistent tm c (h @ xs) ys)"
  by (induction tm c h xs rule: consistent.induct) simp_all

lemma length_succeeded_map:
  "length (succeeded (map (\<lambda>(w, t, r). (f w t, r)) trs)) =
     length (filter (\<lambda>(w, t, r). r = None) trs)"
  by (induction trs) (auto simp: succeeded_def)

lemma map_Name_fst_map:
  "map (Name \<circ> fst) (map (\<lambda>(w, t, r). (w\<lparr>Annotations := g w t\<rparr>, r)) trs) =
     map Name (map fst trs)"
  by (induction trs) auto

section \<open>The per-kind restart procedures: their traces\<close>

subsection \<open>restartDeployments\<close>

lemma deploymentCalls_Nil: "deploymentCalls tm ns [] = []"
  by (simp add: deploymentCalls_def)

lemma deploymentCalls_Cons:
  "deploymentCalls tm ns ((w, t, r) # trs) =
     [CallNow t,
      CallDeploymentsUpdate ns
        (w\<lparr>Annotations := Some ((case Annotations w of None \<Rightarrow> Map.empty | Some m \<Rightarrow> m)
              (restartedAt \<mapsto> Format tm t RFC3339))\<rparr>) r] @ deploymentCalls tm ns trs"
  by (simp add: deploymentCalls_def)

lemma deploymentLogs_Nil: "deploymentLogs ns [] = []"
  by (simp add: deploymentLogs_def)

lemma deploymentLogs_Cons:
  "deploymentLogs ns ((w, t, r) # trs) =
     Entry InfoLevel ''Restarting deployment''
       [(''namespace'', FString ns), (''deployment'', FString (Name w))] #
     (case r of
        None \<Rightarrow> []
      | Some e \<Rightarrow>
          [Entry ErrorLevel ''Failed to restart deployment''
             [(''namespace'', FString ns), (''deployment'', FString (Name w)),
              (''error'', FError e)]]) @ deploymentLogs ns trs"
  by (simp add: deploymentLogs_def)

lemma restartDeploymentsItems_trace:
  "\<exists>trs. map fst trs = filter (\<lambda>w. Contains (ToLower (Name w)) (podFilter rc)) items \<and>
     calls (snd (restartDeploymentsItems tm rc ns items count s)) = calls s @ deploymentCalls tm ns trs \<and>
     fst (restartDeploymentsItems tm rc ns items count s) =
        count + of_nat (length (filter (\<lambda>(w, t, r). r = None) trs)) \<and>
     metadata (snd (restartDeploymentsItems tm rc ns items count s)) = metadata s \<and>
     consistent tm (cs rc) (calls s) (deploymentCalls tm ns trs) \<and>
     snd (restartDeploymentsItems tm rc ns items count s) =
       s\<lparr>calls := calls s @ deploymentCalls tm ns trs, logged := logged s @ deploymentLogs ns trs\<rparr>"
proof (induction items arbitrary: count s)
  case Nil
  show ?case by (rule exI [of _ "[]"]) (simp add: deploymentCalls_Nil deploymentLogs_Nil)
next
  case (Cons w items)
  show ?case
  proof (cases "Contains (ToLower (Name w)) (podFilter rc)")
    case False
    then show ?thesis using Cons.IH [of count s] by simp
  next
    case True
    define s1 where "s1 = s\<lparr>logged := logged s @ [Entry InfoLevel ''Restarting deployment''
                   [(''namespace'', FString ns), (''deployment'', FString (Name w))]]\<rparr>"
    define now where "now = Now tm (calls s1)"
    define w' where "w' = w\<lparr>Annotations :=
        Some ((case Annotations w of None \<Rightarrow> Map.empty | Some m \<Rightarrow> m)
          (restartedAt \<mapsto> Format tm now RFC3339))\<rparr>"
    define s2 where "s2 = s1\<lparr>calls := calls s1 @ [CallNow now]\<rparr>"
    define err where "err = DeploymentsUpdate (cs rc) (calls s2) ns w'"
    define s3 where "s3 = s2\<lparr>calls := calls s2 @ [CallDeploymentsUpdate ns w' err]\<rparr>"
    define s4 where "s4 = (case err of None \<Rightarrow> s3 | Some e \<Rightarrow>
        s3\<lparr>logged := logged s3 @ [Entry ErrorLevel ''Failed to restart deployment''
                     [(''namespace'', FString ns), (''deployment'', FString (Name w')),
                      (''error'', FError e)]]\<rparr>)"
    define c4 where "c4 = (case err of None \<Rightarrow> count + 1 | Some e \<Rightarrow> count)"
    have step: "restartDeploymentsItems tm rc ns (w # items) count s =
        restartDeploymentsItems tm rc ns items c4 s4"
      using True
      by (simp add: Let_def s1_def now_def w'_def s2_def err_def s3_def s4_def c4_def
               split: option.splits)
    have h4: "calls s4 = calls s @ [CallNow now, CallDeploymentsUpdate ns w' err]"
      and m4: "metadata s4 = metadata s"
      by (simp_all add: s4_def s3_def s2_def s1_def split: option.splits)
    from Cons.IH [of c4 s4] obtain trs where
      t1: "map fst trs = filter (\<lambda>w. Contains (ToLower (Name w)) (podFilter rc)) items"
      and t2: "calls (snd (restartDeploymentsItems tm rc ns items c4 s4)) =
        calls s4 @ deploymentCalls tm ns trs"
      and t3: "fst (restartDeploymentsItems tm rc ns items c4 s4) =
        c4 + of_nat (length (filter (\<lambda>(w, t, r). r = None) trs))"
      and t4: "metadata (snd (restartDeploymentsItems tm rc ns items c4 s4)) = metadata s4"
      and t5: "consistent tm (cs rc) (calls s4) (deploymentCalls tm ns trs)"
      and t6: "snd (restartDeploymentsItems tm rc ns items c4 s4) =
        s4\<lparr>calls := calls s4 @ deploymentCalls tm ns trs, logged := logged s4 @ deploymentLogs ns trs\<rparr>"
      by blast
    show ?thesis
    proof (rule exI [of _ "(w, now, err) # trs"], intro conjI)
      show "map fst ((w, now, err) # trs) =
          filter (\<lambda>w. Contains (ToLower (Name w)) (podFilter rc)) (w # items)"
        using True t1 by simp
      show "calls (snd (restartDeploymentsItems tm rc ns (w # items) count s)) =
          calls s @ deploymentCalls tm ns ((w, now, err) # trs)"
        unfolding step t2 h4 by (simp add: deploymentCalls_Cons w'_def)
      show "fst (restartDeploymentsItems tm rc ns (w # items) count s) =
          count + of_nat (length (filter (\<lambda>(w, t, r). r = None) ((w, now, err) # trs)))"
        unfolding step t3 by (cases err) (simp_all add: c4_def)
      show "metadata (snd (restartDeploymentsItems tm rc ns (w # items) count s)) = metadata s"
        unfolding step t4 m4 ..
      have ev: "deploymentCalls tm ns ((w, now, err) # trs) =
          [CallNow now, CallDeploymentsUpdate ns w' err] @ deploymentCalls tm ns trs"
        by (simp add: deploymentCalls_Cons w'_def)
      have n: "now = Now tm (calls s)"
        by (simp add: now_def s1_def)
      have e: "err = DeploymentsUpdate (cs rc) (calls s @ [CallNow now]) ns w'"
        by (simp add: err_def s2_def s1_def)
      show "consistent tm (cs rc) (calls s) (deploymentCalls tm ns ((w, now, err) # trs))"
        unfolding ev using t5 n e unfolding h4 by simp
      have s4eq: "s4 = s\<lparr>calls := calls s @ [CallNow now, CallDeploymentsUpdate ns w' err],
          logged := logged s @ deploymentLogs ns [(w, now, err)]\<rparr>"
        by (cases err)
          (simp_all add: s4_def s3_def s2_def s1_def w'_def deploymentLogs_Cons deploymentLogs_Nil)
      show "snd (restartDeploymentsItems tm rc ns (w # items) count s) =
          s\<lparr>calls := calls s @ deploymentCalls tm ns ((w, now, err) # trs),
            logged := logged s @ deploymentLogs ns ((w, now, err) # trs)\<rparr>"
        unfolding step t6 ev
        by (subst (1 2 3) s4eq) (simp add: deploymentLogs_Cons deploymentLogs_Nil)
    qed
  qed
qed

lemma restartDeployments_list_fails:
  assumes "DeploymentsList (cs rc) (calls s) ns = Inl e"
  shows "restartDeployments tm rc ns s = ((0, Some e), s\<lparr>calls := calls s @ [CallDeploymentsList ns]\<rparr>)"
  using assms by (simp add: restartDeployments_def)

lemma restartDeployments_list_ok:
  assumes "DeploymentsList (cs rc) (calls s) ns = Inr items"
  shows "\<exists>trs. map fst trs = filter (\<lambda>w. Contains (ToLower (Name w)) (podFilter rc)) items \<and>
     calls (snd (restartDeployments tm rc ns s)) = calls s @ CallDeploymentsList ns # deploymentCalls tm ns trs \<and>
     fst (restartDeployments tm rc ns s) =
        (of_nat (length (filter (\<lambda>(w, t, r). r = None) trs)), None) \<and>
     metadata (snd (restartDeployments tm rc ns s)) = metadata s \<and>
     consistent tm (cs rc) (calls s) (CallDeploymentsList ns # deploymentCalls tm ns trs) \<and>
     snd (restartDeployments tm rc ns s) =
       s\<lparr>calls := calls s @ CallDeploymentsList ns # deploymentCalls tm ns trs,
         logged := logged s @ deploymentLogs ns trs\<rparr>"
proof -
  define s1 where "s1 = s\<lparr>calls := calls s @ [CallDeploymentsList ns]\<rparr>"
  have r: "restartDeployments tm rc ns s =
      ((fst (restartDeploymentsItems tm rc ns items 0 s1), None),
       snd (restartDeploymentsItems tm rc ns items 0 s1))"
    using assms by (simp add: restartDeployments_def s1_def split: prod.splits)
  from restartDeploymentsItems_trace [of rc items tm ns 0 s1] obtain trs where
    t1: "map fst trs = filter (\<lambda>w. Contains (ToLower (Name w)) (podFilter rc)) items"
    and t2: "calls (snd (restartDeploymentsItems tm rc ns items 0 s1)) = calls s1 @ deploymentCalls tm ns trs"
    and t3: "fst (restartDeploymentsItems tm rc ns items 0 s1) =
        0 + of_nat (length (filter (\<lambda>(w, t, r). r = None) trs))"
    and t4: "metadata (snd (restartDeploymentsItems tm rc ns items 0 s1)) = metadata s1"
    and t5: "consistent tm (cs rc) (calls s1) (deploymentCalls tm ns trs)"
    and t6: "snd (restartDeploymentsItems tm rc ns items 0 s1) =
        s1\<lparr>calls := calls s1 @ deploymentCalls tm ns trs, logged := logged s1 @ deploymentLogs ns trs\<rparr>"
    by blast
  have s1: "calls s1 = calls s @ [CallDeploymentsList ns]" "metadata s1 = metadata s"
    by (simp_all add: s1_def)
  have full: "snd (restartDeployments tm rc ns s) =
       s\<lparr>calls := calls s @ CallDeploymentsList ns # deploymentCalls tm ns trs,
         logged := logged s @ deploymentLogs ns trs\<rparr>"
    unfolding r snd_conv t6 by (simp add: s1_def)
  show ?thesis
    using t5 full by (intro exI [of _ trs]) (simp add: r t1 t2 t3 t4 s1)
qed

lemma restartDeployments_count:
  assumes ok: "DeploymentsList (cs rc) (calls s) ns = Inr items"
    and len: "length items < 2 ^ 63"
  shows "snd (fst (restartDeployments tm rc ns s)) = None \<and>
     0 \<le> sint (fst (fst (restartDeployments tm rc ns s))) \<and>
     sint (fst (fst (restartDeployments tm rc ns s))) \<le> int (length items)"
proof -
  from restartDeployments_list_ok [OF ok, where tm = tm] obtain trs where
    t1: "map fst trs = filter (\<lambda>w. Contains (ToLower (Name w)) (podFilter rc)) items"
    and t2: "calls (snd (restartDeployments tm rc ns s)) =
        calls s @ CallDeploymentsList ns # deploymentCalls tm ns trs"
    and t3: "fst (restartDeployments tm rc ns s) =
        (of_nat (length (filter (\<lambda>(w, t, r). r = None) trs)), None)"
    by blast
  define k where "k = length (filter (\<lambda>(w, t, r). r = None) trs)"
  have "k \<le> length trs" by (simp add: k_def)
  also have "length trs = length (map fst trs)" by simp
  also have "\<dots> \<le> length items" unfolding t1 by simp
  finally have k: "k \<le> length items" .
  with len have "k < 2 ^ 63" by simp
  then have "sint (of_nat k :: go_int) = int k" by (rule sint_of_nat_small)
  with k show ?thesis by (simp add: t3 k_def [symmetric])
qed

lemma deploymentUpdates_append: "deploymentUpdates (xs @ ys) = deploymentUpdates xs @ deploymentUpdates ys"
  by (induction xs rule: deploymentUpdates.induct) simp_all

lemma deploymentUpdates_deploymentCalls:
  "deploymentUpdates (deploymentCalls tm ns trs) =
     map (\<lambda>(w, t, r).
       (w\<lparr>Annotations := Some ((case Annotations w of None \<Rightarrow> Map.empty | Some m \<Rightarrow> m)
              (restartedAt \<mapsto> Format tm t RFC3339))\<rparr>, r)) trs"
  by (induction trs) (simp_all add: deploymentCalls_def case_prod_unfold fun_upd_def)

lemma listCalls_deploymentCalls: "listCalls (deploymentCalls tm ns trs) = []"
  by (induction trs) (auto simp: deploymentCalls_Nil deploymentCalls_Cons listCalls_def)

lemma restartDeployments_updates:
  assumes ok: "DeploymentsList (cs rc) (calls s) ns = Inr items"
  shows "map (Name \<circ> fst)
        (deploymentUpdates (drop (length (calls s)) (calls (snd (restartDeployments tm rc ns s))))) =
      map Name (filter (\<lambda>w. Contains (ToLower (Name w)) (podFilter rc)) items)"
    and "fst (restartDeployments tm rc ns s) =
      (of_nat (length (succeeded
         (deploymentUpdates (drop (length (calls s)) (calls (snd (restartDeployments tm rc ns s))))))), None)"
    and "metadata (snd (restartDeployments tm rc ns s)) = metadata s"
proof -
  from restartDeployments_list_ok [OF ok, where tm = tm] obtain trs where
    t1: "map fst trs = filter (\<lambda>w. Contains (ToLower (Name w)) (podFilter rc)) items"
    and t2: "calls (snd (restartDeployments tm rc ns s)) =
        calls s @ CallDeploymentsList ns # deploymentCalls tm ns trs"
    and t3: "fst (restartDeployments tm rc ns s) =
        (of_nat (length (filter (\<lambda>(w, t, r). r = None) trs)), None)"
    and t4: "metadata (snd (restartDeployments tm rc ns s)) = metadata s"
    by blast
  have new: "deploymentUpdates (drop (length (calls s)) (calls (snd (restartDeployments tm rc ns s)))) =
      map (\<lambda>(w, t, r).
       (w\<lparr>Annotations := Some ((case Annotations w of None \<Rightarrow> Map.empty | Some m \<Rightarrow> m)
              (restartedAt \<mapsto> Format tm t RFC3339))\<rparr>, r)) trs"
    unfolding t2 by (simp add: deploymentUpdates_deploymentCalls)
  show "map (Name \<circ> fst)
        (deploymentUpdates (drop (length (calls s)) (calls (snd (restartDeployments tm rc ns s))))) =
      map Name (filter (\<lambda>w. Contains (ToLower (Name w)) (podFilter rc)) items)"
    unfolding new map_Name_fst_map t1 ..
  show "fst (restartDeployments tm rc ns s) =
      (of_nat (length (succeeded
         (deploymentUpdates (drop (length (calls s)) (calls (snd (restartDeployments tm rc ns s))))))), None)"
    unfolding new length_succeeded_map t3 ..
  show "metadata (snd (restartDeployments tm rc ns s)) = metadata s" by (rule t4)
qed

lemma Run_deployments_list_fails:
  assumes "DeploymentsList (cs rc) (calls s) ns = Inl e"
  shows "Run_deployments tm rc ns s =
     s\<lparr>calls := calls s @ [CallDeploymentsList ns],
       metadata := (metadata s)\<lparr>Errors := Errors (metadata s) @
          [Errorf (''deployments in '' @ ns @ '': '') e]\<rparr>,
       logged := logged s @ [Entry ErrorLevel ''Failed to restart deployments''
          [(''namespace'', FString ns), (''error'', FError e)]]\<rparr>"
  by (simp add: Run_deployments_def restartDeployments_list_fails [OF assms])

lemma Run_deployments_list_ok:
  assumes ok: "DeploymentsList (cs rc) (calls s) ns = Inr items"
  shows "Run_deployments tm rc ns s =
     (snd (restartDeployments tm rc ns s))\<lparr>metadata := (metadata s)\<lparr>DeploymentsRestarted :=
        DeploymentsRestarted (metadata s) + fst (fst (restartDeployments tm rc ns s))\<rparr>\<rparr>"
proof -
  have "snd (fst (restartDeployments tm rc ns s)) = None"
    using restartDeployments_updates(2) [OF ok, of tm] by simp
  moreover have "metadata (snd (restartDeployments tm rc ns s)) = metadata s"
    by (rule restartDeployments_updates(3) [OF ok])
  ultimately show ?thesis
    by (cases "restartDeployments tm rc ns s") (auto simp: Run_deployments_def)
qed

lemma Run_deployments_listCalls:
  "listCalls (calls (Run_deployments tm rc ns s)) = listCalls (calls s) @ [CallDeploymentsList ns]"
proof (cases "DeploymentsList (cs rc) (calls s) ns")
  case (Inl e)
  show ?thesis
    by (simp add: Run_deployments_list_fails [OF Inl] listCalls_def)
next
  case (Inr items)
  from restartDeployments_list_ok [OF Inr, where tm = tm] obtain trs where
    t1: "map fst trs = filter (\<lambda>w. Contains (ToLower (Name w)) (podFilter rc)) items"
    and t2: "calls (snd (restartDeployments tm rc ns s)) =
        calls s @ CallDeploymentsList ns # deploymentCalls tm ns trs"
    by blast
  have "listCalls (calls s @ CallDeploymentsList ns # deploymentCalls tm ns trs) =
      listCalls (calls s) @ [CallDeploymentsList ns]"
    using listCalls_deploymentCalls [of tm ns trs] by (simp add: listCalls_def)
  then show ?thesis
    by (simp add: Run_deployments_list_ok [OF Inr] t2)
qed

lemma Run_deployments_metadata:
  "\<exists>es c. length es \<le> 1 \<and>
     metadata (Run_deployments tm rc ns s) =
       (metadata s)\<lparr>Errors := Errors (metadata s) @ es,
         DeploymentsRestarted := DeploymentsRestarted (metadata s) + c\<rparr>"
proof (cases "DeploymentsList (cs rc) (calls s) ns")
  case (Inl e)
  show ?thesis
    by (rule exI [of _ "[Errorf (''deployments in '' @ ns @ '': '') e]"], rule exI [of _ 0])
      (simp add: Run_deployments_list_fails [OF Inl])
next
  case (Inr items)
  show ?thesis
    by (rule exI [of _ "[]"], rule exI [of _ "fst (fst (restartDeployments tm rc ns s))"])
      (simp add: Run_deployments_list_ok [OF Inr])
qed

lemma Run_deployments_bounds:
  "NamespacesProcessed (metadata (Run_deployments tm rc ns s)) = NamespacesProcessed (metadata s)"
  "length (Errors (metadata (Run_deployments tm rc ns s))) \<le> Suc (length (Errors (metadata s)))"
  "StartTime (metadata (Run_deployments tm rc ns s)) = StartTime (metadata s)"
  using Run_deployments_metadata [of tm rc ns s] by auto

lemma restartDeployments_consistent:
  assumes ok: "DeploymentsList (cs rc) (calls s) ns = Inr items"
  shows "consistent tm (cs rc) (calls s)
     (drop (length (calls s)) (calls (snd (restartDeployments tm rc ns s))))"
proof -
  from restartDeployments_list_ok [OF ok, where tm = tm] obtain trs where
    t2: "calls (snd (restartDeployments tm rc ns s)) =
        calls s @ CallDeploymentsList ns # deploymentCalls tm ns trs"
    and t5: "consistent tm (cs rc) (calls s) (CallDeploymentsList ns # deploymentCalls tm ns trs)"
    by blast
  show ?thesis unfolding t2 using t5 by simp
qed

lemma length_deploymentCalls: "length (deploymentCalls tm ns trs) = 2 * length trs"
  by (induction trs) (simp_all add: deploymentCalls_def case_prod_unfold)

lemma Run_deployments_growth:
  "\<exists>k es. k + length (calls s) \<le> length (calls (Run_deployments tm rc ns s)) \<and> length es \<le> 1 \<and>
     metadata (Run_deployments tm rc ns s) =
       (metadata s)\<lparr>Errors := Errors (metadata s) @ es,
         DeploymentsRestarted := DeploymentsRestarted (metadata s) + of_nat k\<rparr>"
proof (cases "DeploymentsList (cs rc) (calls s) ns")
  case (Inl e)
  show ?thesis
    by (rule exI [of _ 0], rule exI [of _ "[Errorf (''deployments in '' @ ns @ '': '') e]"])
      (simp add: Run_deployments_list_fails [OF Inl])
next
  case (Inr items)
  from restartDeployments_list_ok [OF Inr, where tm = tm] obtain trs where
    t2: "calls (snd (restartDeployments tm rc ns s)) =
        calls s @ CallDeploymentsList ns # deploymentCalls tm ns trs"
    and t3: "fst (restartDeployments tm rc ns s) =
        (of_nat (length (filter (\<lambda>(w, t, r). r = None) trs)), None)"
    by blast
  define k where "k = length (filter (\<lambda>(w, t, r). r = None) trs)"
  have "k \<le> length trs" by (simp add: k_def)
  then have "k + length (calls s) \<le> length (calls (Run_deployments tm rc ns s))"
    by (simp add: Run_deployments_list_ok [OF Inr] t2 length_deploymentCalls)
  moreover have "metadata (Run_deployments tm rc ns s) =
       (metadata s)\<lparr>Errors := Errors (metadata s) @ [],
         DeploymentsRestarted := DeploymentsRestarted (metadata s) + of_nat k\<rparr>"
    by (simp add: Run_deployments_list_ok [OF Inr] t3 k_def)
  ultimately show ?thesis
    by (intro exI [of _ k] exI [of _ "[]"]) simp
qed

lemma Run_deployments_ok_state:
  assumes ok: "DeploymentsList (cs rc) (calls s) ns = Inr items"
  shows "\<exists>trs. map fst trs = filter (\<lambda>w. Contains (ToLower (Name w)) (podFilter rc)) items \<and>
     consistent tm (cs rc) (calls s) (CallDeploymentsList ns # deploymentCalls tm ns trs) \<and>
     Run_deployments tm rc ns s =
       s\<lparr>calls := calls s @ CallDeploymentsList ns # deploymentCalls tm ns trs,
         logged := logged s @ deploymentLogs ns trs,
         metadata := (metadata s)\<lparr>DeploymentsRestarted := DeploymentsRestarted (metadata s) +
           of_nat (length (filter (\<lambda>(w, t, r). r = None) trs))\<rparr>\<rparr>"
proof -
  from restartDeployments_list_ok [OF ok, where tm = tm] obtain trs where
    t1: "map fst trs = filter (\<lambda>w. Contains (ToLower (Name w)) (podFilter rc)) items"
    and t3: "fst (restartDeployments tm rc ns s) =
        (of_nat (length (filter (\<lambda>(w, t, r). r = None) trs)), None)"
    and t5: "consistent tm (cs rc) (calls s) (CallDeploymentsList ns # deploymentCalls tm ns trs)"
    and t6: "snd (restartDeployments tm rc ns s) =
       s\<lparr>calls := calls s @ CallDeploymentsList ns # deploymentCalls tm ns trs,
         logged := logged s @ deploymentLogs ns trs\<rparr>"
    by blast
  have "Run_deployments tm rc ns s =
       s\<lparr>calls := calls s @ CallDeploymentsList ns # deploymentCalls tm ns trs,
         logged := logged s @ deploymentLogs ns trs,
         metadata := (metadata s)\<lparr>DeploymentsRestarted := DeploymentsRestarted (metadata s) +
           of_nat (length (filter (\<lambda>(w, t, r). r = None) trs))\<rparr>\<rparr>"
    unfolding Run_deployments_list_ok [OF ok] t6 by (simp add: t3)
  with t1 t5 show ?thesis by blast
qed

subsection \<open>restartStatefulSets\<close>

lemma stsCalls_Nil: "stsCalls tm ns [] = []"
  by (simp add: stsCalls_def)

lemma stsCalls_Cons:
  "stsCalls tm ns ((w, t, r) # trs) =
     [CallNow t,
      CallStatefulSetsUpdate ns
        (w\<lparr>Annotations := Some ((case Annotations w of None \<Rightarrow> Map.empty | Some m \<Rightarrow> m)
              (restartedAt \<mapsto> Format tm t RFC3339))\<rparr>) r] @ stsCalls tm ns trs"
  by (simp add: stsCalls_def)

lemma stsLogs_Nil: "stsLogs ns [] = []"
  by (simp add: stsLogs_def)

lemma stsLogs_Cons:
  "stsLogs ns ((w, t, r) # trs) =
     Entry InfoLevel ''Restarting statefulset''
       [(''namespace'', FString ns), (''statefulset'', FString (Name w))] #
     (case r of
        None \<Rightarrow> []
      | Some e \<Rightarrow>
          [Entry ErrorLevel ''Failed to restart statefulset''
             [(''namespace'', FString ns), (''statefulset'', FString (Name w)),
              (''error'', FError e)]]) @ stsLogs ns trs"
  by (simp add: stsLogs_def)

lemma restartStatefulSetsItems_trace:
  "\<exists>trs. map fst trs = filter (\<lambda>w. Contains (ToLower (Name w)) (podFilter rc)) items \<and>
     calls (snd (restartStatefulSetsItems tm rc ns items count s)) = calls s @ stsCalls tm ns trs \<and>
     fst (restartStatefulSetsItems tm rc ns items count s) =
        count + of_nat (length (filter (\<lambda>(w, t, r). r = None) trs)) \<and>
     metadata (snd (restartStatefulSetsItems tm rc ns items count s)) = metadata s \<and>
     consistent tm (cs rc) (calls s) (stsCalls tm ns trs) \<and>
     snd (restartStatefulSetsItems tm rc ns items count s) =
       s\<lparr>calls := calls s @ stsCalls tm ns trs, logged := logged s @ stsLogs ns trs\<rparr>"
proof (induction items arbitrary: count s)
  case Nil
  show ?case by (rule exI [of _ "[]"]) (simp add: stsCalls_Nil stsLogs_Nil)
next
  case (Cons w items)
  show ?case
  proof (cases "Contains (ToLower (Name w)) (podFilter rc)")
    case False
    then show ?thesis using Cons.IH [of count s] by simp
  next
    case True
    define s1 where "s1 = s\<lparr>logged := logged s @ [Entry InfoLevel ''Restarting statefulset''
                   [(''namespace'', FString ns), (''statefulset'', FString (Name w))]]\<rparr>"
    define now where "now = Now tm (calls s1)"
    define w' where "w' = w\<lparr>Annotations :=
        Some ((case Annotations w of None \<Rightarrow> Map.empty | Some m \<Rightarrow> m)
          (restartedAt \<mapsto> Format tm now RFC3339))\<rparr>"
    define s2 where "s2 = s1\<lparr>calls := calls s1 @ [CallNow now]\<rparr>"
    define err where "err = StatefulSetsUpdate (cs rc) (calls s2) ns w'"
    define s3 where "s3 = s2\<lparr>calls := calls s2 @ [CallStatefulSetsUpdate ns w' err]\<rparr>"
    define s4 where "s4 = (case err of None \<Rightarrow> s3 | Some e \<Rightarrow>
        s3\<lparr>logged := logged s3 @ [Entry ErrorLevel ''Failed to restart statefulset''
                     [(''namespace'', FString ns), (''statefulset'', FString (Name w')),
                      (''error'', FError e)]]\<rparr>)"
    define c4 where "c4 = (case err of None \<Rightarrow> count + 1 | Some e \<Rightarrow> count)"
    have step: "restartStatefulSetsItems tm rc ns (w # items) count s =
        restartStatefulSetsItems tm rc ns items c4 s4"
      using True
      by (simp add: Let_def s1_def now_def w'_def s2_def err_def s3_def s4_def c4_def
               split: option.splits)
    have h4: "calls s4 = calls s @ [CallNow now, CallStatefulSetsUpdate ns w' err]"
      and m4: "metadata s4 = metadata s"
      by (simp_all add: s4_def s3_def s2_def s1_def split: option.splits)
    from Cons.IH [of c4 s4] obtain trs where
      t1: "map fst trs = filter (\<lambda>w. Contains (ToLower (Name w)) (podFilter rc)) items"
      and t2: "calls (snd (restartStatefulSetsItems tm rc ns items c4 s4)) =
        calls s4 @ stsCalls tm ns trs"
      and t3: "fst (restartStatefulSetsItems tm rc ns items c4 s4) =
        c4 + of_nat (length (filter (\<lambda>(w, t, r). r = None) trs))"
      and t4: "metadata (snd (restartStatefulSetsItems tm rc ns items c4 s4)) = metadata s4"
      and t5: "consistent tm (cs rc) (calls s4) (stsCalls tm ns trs)"
      and t6: "snd (restartStatefulSetsItems tm rc ns items c4 s4) =
        s4\<lparr>calls := calls s4 @ stsCalls tm ns trs, logged := logged s4 @ stsLogs ns trs\<rparr>"
      by blast
    show ?thesis
    proof (rule exI [of _ "(w, now, err) # trs"], intro conjI)
      show "map fst ((w, now, err) # trs) =
          filter (\<lambda>w. Contains (ToLower (Name w)) (podFilter rc)) (w # items)"
        using True t1 by simp
      show "calls (snd (restartStatefulSetsItems tm rc ns (w # items) count s)) =
          calls s @ stsCalls tm ns ((w, now, err) # trs)"
        unfolding step t2 h4 by (simp add: stsCalls_Cons w'_def)
      show "fst (restartStatefulSetsItems tm rc ns (w # items) count s) =
          count + of_nat (length (filter (\<lambda>(w, t, r). r = None) ((w, now, err) # trs)))"
        unfolding step t3 by (cases err) (simp_all add: c4_def)
      show "metadata (snd (restartStatefulSetsItems tm rc ns (w # items) count s)) = metadata s"
        unfolding step t4 m4 ..
      have ev: "stsCalls tm ns ((w, now, err) # trs) =
          [CallNow now, CallStatefulSetsUpdate ns w' err] @ stsCalls tm ns trs"
        by (simp add: stsCalls_Cons w'_def)
      have n: "now = Now tm (calls s)"
        by (simp add: now_def s1_def)
      have e: "err = StatefulSetsUpdate (cs rc) (calls s @ [CallNow now]) ns w'"
        by (simp add: err_def s2_def s1_def)
      show "consistent tm (cs rc) (calls s) (stsCalls tm ns ((w, now, err) # trs))"
        unfolding ev using t5 n e unfolding h4 by simp
      have s4eq: "s4 = s\<lparr>calls := calls s @ [CallNow now, CallStatefulSetsUpdate ns w' err],
          logged := logged s @ stsLogs ns [(w, now, err)]\<rparr>"
        by (cases err)
          (simp_all add: s4_def s3_def s2_def s1_def w'_def stsLogs_Cons stsLogs_Nil)
      show "snd (restartStatefulSetsItems tm rc ns (w # items) count s) =
          s\<lparr>calls := calls s @ stsCalls tm ns ((w, now, err) # trs),
            logged := logged s @ stsLogs ns ((w, now, err) # trs)\<rparr>"
        unfolding step t6 ev
        by (subst (1 2 3) s4eq) (simp add: stsLogs_Cons stsLogs_Nil)
    qed
  qed
qed

lemma restartStatefulSets_list_fails:
  assumes "StatefulSetsList (cs rc) (calls s) ns = Inl e"
  shows "restartStatefulSets tm rc ns s = ((0, Some e), s\<lparr>calls := calls s @ [CallStatefulSetsList ns]\<rparr>)"
  using assms by (simp add: restartStatefulSets_def)

lemma restartStatefulSets_list_ok:
  assumes "StatefulSetsList (cs rc) (calls s) ns = Inr items"
  shows "\<exists>trs. map fst trs = filter (\<lambda>w. Contains (ToLower (Name w)) (podFilter rc)) items \<and>
     calls (snd (restartStatefulSets tm rc ns s)) = calls s @ CallStatefulSetsList ns # stsCalls tm ns trs \<and>
     fst (restartStatefulSets tm rc ns s) =
        (of_nat (length (filter (\<lambda>(w, t, r). r = None) trs)), None) \<and>
     metadata (snd (restartStatefulSets tm rc ns s)) = metadata s \<and>
     consistent tm (cs rc) (calls s) (CallStatefulSetsList ns # stsCalls tm ns trs) \<and>
     snd (restartStatefulSets tm rc ns s) =
       s\<lparr>calls := calls s @ CallStatefulSetsList ns # stsCalls tm ns trs,
         logged := logged s @ stsLogs ns trs\<rparr>"
proof -
  define s1 where "s1 = s\<lparr>calls := calls s @ [CallStatefulSetsList ns]\<rparr>"
  have r: "restartStatefulSets tm rc ns s =
      ((fst (restartStatefulSetsItems tm rc ns items 0 s1), None),
       snd (restartStatefulSetsItems tm rc ns items 0 s1))"
    using assms by (simp add: restartStatefulSets_def s1_def split: prod.splits)
  from restartStatefulSetsItems_trace [of rc items tm ns 0 s1] obtain trs where
    t1: "map fst trs = filter (\<lambda>w. Contains (ToLower (Name w)) (podFilter rc)) items"
    and t2: "calls (snd (restartStatefulSetsItems tm rc ns items 0 s1)) = calls s1 @ stsCalls tm ns trs"
    and t3: "fst (restartStatefulSetsItems tm rc ns items 0 s1) =
        0 + of_nat (length (filter (\<lambda>(w, t, r). r = None) trs))"
    and t4: "metadata (snd (restartStatefulSetsItems tm rc ns items 0 s1)) = metadata s1"
    and t5: "consistent tm (cs rc) (calls s1) (stsCalls tm ns trs)"
    and t6: "snd (restartStatefulSetsItems tm rc ns items 0 s1) =
        s1\<lparr>calls := calls s1 @ stsCalls tm ns trs, logged := logged s1 @ stsLogs ns trs\<rparr>"
    by blast
  have s1: "calls s1 = calls s @ [CallStatefulSetsList ns]" "metadata s1 = metadata s"
    by (simp_all add: s1_def)
  have full: "snd (restartStatefulSets tm rc ns s) =
       s\<lparr>calls := calls s @ CallStatefulSetsList ns # stsCalls tm ns trs,
         logged := logged s @ stsLogs ns trs\<rparr>"
    unfolding r snd_conv t6 by (simp add: s1_def)
  show ?thesis
    using t5 full by (intro exI [of _ trs]) (simp add: r t1 t2 t3 t4 s1)
qed

lemma restartStatefulSets_count:
  assumes ok: "StatefulSetsList (cs rc) (calls s) ns = Inr items"
    and len: "length items < 2 ^ 63"
  shows "snd (fst (restartStatefulSets tm rc ns s)) = None \<and>
     0 \<le> sint (fst (fst (restartStatefulSets tm rc ns s))) \<and>
     sint (fst (fst (restartStatefulSets tm rc ns s))) \<le> int (length items)"
proof -
  from restartStatefulSets_list_ok [OF ok, where tm = tm] obtain trs where
    t1: "map fst trs = filter (\<lambda>w. Contains (ToLower (Name w)) (podFilter rc)) items"
    and t2: "calls (snd (restartStatefulSets tm rc ns s)) =
        calls s @ CallStatefulSetsList ns # stsCalls tm ns trs"
    and t3: "fst (restartStatefulSets tm rc ns s) =
        (of_nat (length (filter (\<lambda>(w, t, r). r = None) trs)), None)"
    by blast
  define k where "k = length (filter (\<lambda>(w, t, r). r = None) trs)"
  have "k \<le> length trs" by (simp add: k_def)
  also have "length trs = length (map fst trs)" by simp
  also have "\<dots> \<le> length items" unfolding t1 by simp
  finally have k: "k \<le> length items" .
  with len have "k < 2 ^ 63" by simp
  then have "sint (of_nat k :: go_int) = int k" by (rule sint_of_nat_small)
  with k show ?thesis by (simp add: t3 k_def [symmetric])
qed

lemma stsUpdates_append: "stsUpdates (xs @ ys) = stsUpdates xs @ stsUpdates ys"
  by (induction xs rule: stsUpdates.induct) simp_all

lemma stsUpdates_stsCalls:
  "stsUpdates (stsCalls tm ns trs) =
     map (\<lambda>(w, t, r).
       (w\<lparr>Annotations := Some ((case Annotations w of None \<Rightarrow> Map.empty | Some m \<Rightarrow> m)
              (restartedAt \<mapsto> Format tm t RFC3339))\<rparr>, r)) trs"
  by (induction trs) (simp_all add: stsCalls_def case_prod_unfold fun_upd_def)

lemma listCalls_stsCalls: "listCalls (stsCalls tm ns trs) = []"
  by (induction trs) (auto simp: stsCalls_Nil stsCalls_Cons listCalls_def)

lemma restartStatefulSets_updates:
  assumes ok: "StatefulSetsList (cs rc) (calls s) ns = Inr items"
  shows "map (Name \<circ> fst)
        (stsUpdates (drop (length (calls s)) (calls (snd (restartStatefulSets tm rc ns s))))) =
      map Name (filter (\<lambda>w. Contains (ToLower (Name w)) (podFilter rc)) items)"
    and "fst (restartStatefulSets tm rc ns s) =
      (of_nat (length (succeeded
         (stsUpdates (drop (length (calls s)) (calls (snd (restartStatefulSets tm rc ns s))))))), None)"
    and "metadata (snd (restartStatefulSets tm rc ns s)) = metadata s"
proof -
  from restartStatefulSets_list_ok [OF ok, where tm = tm] obtain trs where
    t1: "map fst trs = filter (\<lambda>w. Contains (ToLower (Name w)) (podFilter rc)) items"
    and t2: "calls (snd (restartStatefulSets tm rc ns s)) =
        calls s @ CallStatefulSetsList ns # stsCalls tm ns trs"
    and t3: "fst (restartStatefulSets tm rc ns s) =
        (of_nat (length (filter (\<lambda>(w, t, r). r = None) trs)), None)"
    and t4: "metadata (snd (restartStatefulSets tm rc ns s)) = metadata s"
    by blast
  have new: "stsUpdates (drop (length (calls s)) (calls (snd (restartStatefulSets tm rc ns s)))) =
      map (\<lambda>(w, t, r).
       (w\<lparr>Annotations := Some ((case Annotations w of None \<Rightarrow> Map.empty | Some m \<Rightarrow> m)
              (restartedAt \<mapsto> Format tm t RFC3339))\<rparr>, r)) trs"
    unfolding t2 by (simp add: stsUpdates_stsCalls)
  show "map (Name \<circ> fst)
        (stsUpdates (drop (length (calls s)) (calls (snd (restartStatefulSets tm rc ns s))))) =
      map Name (filter (\<lambda>w. Contains (ToLower (Name w)) (podFilter rc)) items)"
    unfolding new map_Name_fst_map t1 ..
  show "fst (restartStatefulSets tm rc ns s) =
      (of_nat (length (succeeded
         (stsUpdates (drop (length (calls s)) (calls (snd (restartStatefulSets tm rc ns s))))))), None)"
    unfolding new length_succeeded_map t3 ..
  show "metadata (snd (restartStatefulSets tm rc ns s)) = metadata s" by (rule t4)
qed

lemma Run_statefulsets_list_fails:
  assumes "StatefulSetsList (cs rc) (calls s) ns = Inl e"
  shows "Run_statefulsets tm rc ns s =
     s\<lparr>calls := calls s @ [CallStatefulSetsList ns],
       metadata := (metadata s)\<lparr>Errors := Errors (metadata s) @
          [Errorf (''statefulsets in '' @ ns @ '': '') e]\<rparr>,
       logged := logged s @ [Entry ErrorLevel ''Failed to restart statefulsets''
          [(''namespace'', FString ns), (''error'', FError e)]]\<rparr>"
  by (simp add: Run_statefulsets_def restartStatefulSets_list_fails [OF assms])

lemma Run_statefulsets_list_ok:
  assumes ok: "StatefulSetsList (cs rc) (calls s) ns = Inr items"
  shows "Run_statefulsets tm rc ns s =
     (snd (restartStatefulSets tm rc ns s))\<lparr>metadata := (metadata s)\<lparr>StatefulSetsRestarted :=
        StatefulSetsRestarted (metadata s) + fst (fst (restartStatefulSets tm rc ns s))\<rparr>\<rparr>"
proof -
  have "snd (fst (restartStatefulSets tm rc ns s)) = None"
    using restartStatefulSets_updates(2) [OF ok, of tm] by simp
  moreover have "metadata (snd (restartStatefulSets tm rc ns s)) = metadata s"
    by (rule restartStatefulSets_updates(3) [OF ok])
  ultimately show ?thesis
    by (cases "restartStatefulSets tm rc ns s") (auto simp: Run_statefulsets_def)
qed

lemma Run_statefulsets_listCalls:
  "listCalls (calls (Run_statefulsets tm rc ns s)) = listCalls (calls s) @ [CallStatefulSetsList ns]"
proof (cases "StatefulSetsList (cs rc) (calls s) ns")
  case (Inl e)
  show ?thesis
    by (simp add: Run_statefulsets_list_fails [OF Inl] listCalls_def)
next
  case (Inr items)
  from restartStatefulSets_list_ok [OF Inr, where tm = tm] obtain trs where
    t1: "map fst trs = filter (\<lambda>w. Contains (ToLower (Name w)) (podFilter rc)) items"
    and t2: "calls (snd (restartStatefulSets tm rc ns s)) =
        calls s @ CallStatefulSetsList ns # stsCalls tm ns trs"
    by blast
  have "listCalls (calls s @ CallStatefulSetsList ns # stsCalls tm ns trs) =
      listCalls (calls s) @ [CallStatefulSetsList ns]"
    using listCalls_stsCalls [of tm ns trs] by (simp add: listCalls_def)
  then show ?thesis
    by (simp add: Run_statefulsets_list_ok [OF Inr] t2)
qed

lemma Run_statefulsets_metadata:
  "\<exists>es c. length es \<le> 1 \<and>
     metadata (Run_statefulsets tm rc ns s) =
       (metadata s)\<lparr>Errors := Errors (metadata s) @ es,
         StatefulSetsRestarted := StatefulSetsRestarted (metadata s) + c\<rparr>"
proof (cases "StatefulSetsList (cs rc) (calls s) ns")
  case (Inl e)
  show ?thesis
    by (rule exI [of _ "[Errorf (''statefulsets in '' @ ns @ '': '') e]"], rule exI [of _ 0])
      (simp add: Run_statefulsets_list_fails [OF Inl])
next
  case (Inr items)
  show ?thesis
    by (rule exI [of _ "[]"], rule exI [of _ "fst (fst (restartStatefulSets tm rc ns s))"])
      (simp add: Run_statefulsets_list_ok [OF Inr])
qed

lemma Run_statefulsets_bounds:
  "NamespacesProcessed (metadata (Run_statefulsets tm rc ns s)) = NamespacesProcessed (metadata s)"
  "length (Errors (metadata (Run_statefulsets tm rc ns s))) \<le> Suc (length (Errors (metadata s)))"
  "StartTime (metadata (Run_statefulsets tm rc ns s)) = StartTime (metadata s)"
  using Run_statefulsets_metadata [of tm rc ns s] by auto

lemma restartStatefulSets_consistent:
  assumes ok: "StatefulSetsList (cs rc) (calls s) ns = Inr items"
  shows "consistent tm (cs rc) (calls s)
     (drop (length (calls s)) (calls (snd (restartStatefulSets tm rc ns s))))"
proof -
  from restartStatefulSets_list_ok [OF ok, where tm = tm] obtain trs where
    t2: "calls (snd (restartStatefulSets tm rc ns s)) =
        calls s @ CallStatefulSetsList ns # stsCalls tm ns trs"
    and t5: "consistent tm (cs rc) (calls s) (CallStatefulSetsList ns # stsCalls tm ns trs)"
    by blast
  show ?thesis unfolding t2 using t5 by simp
qed

lemma length_stsCalls: "length (stsCalls tm ns trs) = 2 * length trs"
  by (induction trs) (simp_all add: stsCalls_def case_prod_unfold)

lemma Run_statefulsets_growth:
  "\<exists>k es. k + length (calls s) \<le> length (calls (Run_statefulsets tm rc ns s)) \<and> length es \<le> 1 \<and>
     metadata (Run_statefulsets tm rc ns s) =
       (metadata s)\<lparr>Errors := Errors (metadata s) @ es,
         StatefulSetsRestarted := StatefulSetsRestarted (metadata s) + of_nat k\<rparr>"
proof (cases "StatefulSetsList (cs rc) (calls s) ns")
  case (Inl e)
  show ?thesis
    by (rule exI [of _ 0], rule exI [of _ "[Errorf (''statefulsets in '' @ ns @ '': '') e]"])
      (simp add: Run_statefulsets_list_fails [OF Inl])
next
  case (Inr items)
  from restartStatefulSets_list_ok [OF Inr, where tm = tm] obtain trs where
    t2: "calls (snd (restartStatefulSets tm rc ns s)) =
        calls s @ CallStatefulSetsList ns # stsCalls tm ns trs"
    and t3: "fst (restartStatefulSets tm rc ns s) =
        (of_nat (length (filter (\<lambda>(w, t, r). r = None) trs)), None)"
    by blast
  define k where "k = length (filter (\<lambda>(w, t, r). r = None) trs)"
  have "k \<le> length trs" by (simp add: k_def)
  then have "k + length (calls s) \<le> length (calls (Run_statefulsets tm rc ns s))"
    by (simp add: Run_statefulsets_list_ok [OF Inr] t2 length_stsCalls)
  moreover have "metadata (Run_statefulsets tm rc ns s) =
       (metadata s)\<lparr>Errors := Errors (metadata s) @ [],
         StatefulSetsRestarted := StatefulSetsRestarted (metadata s) + of_nat k\<rparr>"
    by (simp add: Run_statefulsets_list_ok [OF Inr] t3 k_def)
  ultimately show ?thesis
    by (intro exI [of _ k] exI [of _ "[]"]) simp
qed

lemma Run_statefulsets_ok_state:
  assumes ok: "StatefulSetsList (cs rc) (calls s) ns = Inr items"
  shows "\<exists>trs. map fst trs = filter (\<lambda>w. Contains (ToLower (Name w)) (podFilter rc)) items \<and>
     consistent tm (cs rc) (calls s) (CallStatefulSetsList ns # stsCalls tm ns trs) \<and>
     Run_statefulsets tm rc ns s =
       s\<lparr>calls := calls s @ CallStatefulSetsList ns # stsCalls tm ns trs,
         logged := logged s @ stsLogs ns trs,
         metadata := (metadata s)\<lparr>StatefulSetsRestarted := StatefulSetsRestarted (metadata s) +
           of_nat (length (filter (\<lambda>(w, t, r). r = None) trs))\<rparr>\<rparr>"
proof -
  from restartStatefulSets_list_ok [OF ok, where tm = tm] obtain trs where
    t1: "map fst trs = filter (\<lambda>w. Contains (ToLower (Name w)) (podFilter rc)) items"
    and t3: "fst (restartStatefulSets tm rc ns s) =
        (of_nat (length (filter (\<lambda>(w, t, r). r = None) trs)), None)"
    and t5: "consistent tm (cs rc) (calls s) (CallStatefulSetsList ns # stsCalls tm ns trs)"
    and t6: "snd (restartStatefulSets tm rc ns s) =
       s\<lparr>calls := calls s @ CallStatefulSetsList ns # stsCalls tm ns trs,
         logged := logged s @ stsLogs ns trs\<rparr>"
    by blast
  have "Run_statefulsets tm rc ns s =
       s\<lparr>calls := calls s @ CallStatefulSetsList ns # stsCalls tm ns trs,
         logged := logged s @ stsLogs ns trs,
         metadata := (metadata s)\<lparr>StatefulSetsRestarted := StatefulSetsRestarted (metadata s) +
           of_nat (length (filter (\<lambda>(w, t, r). r = None) trs))\<rparr>\<rparr>"
    unfolding Run_statefulsets_list_ok [OF ok] t6 by (simp add: t3)
  with t1 t5 show ?thesis by blast
qed

subsection \<open>restartDaemonSets\<close>

lemma dsCalls_Nil: "dsCalls tm ns [] = []"
  by (simp add: dsCalls_def)

lemma dsCalls_Cons:
  "dsCalls tm ns ((w, t, r) # trs) =
     [CallNow t,
      CallDaemonSetsUpdate ns
        (w\<lparr>Annotations := Some ((case Annotations w of None \<Rightarrow> Map.empty | Some m \<Rightarrow> m)
              (restartedAt \<mapsto> Format tm t RFC3339))\<rparr>) r] @ dsCalls tm ns trs"
  by (simp add: dsCalls_def)

lemma dsLogs_Nil: "dsLogs ns [] = []"
  by (simp add: dsLogs_def)

lemma dsLogs_Cons:
  "dsLogs ns ((w, t, r) # trs) =
     Entry InfoLevel ''Restarting daemonset''
       [(''namespace'', FString ns), (''daemonset'', FString (Name w))] #
     (case r of
        None \<Rightarrow> []
      | Some e \<Rightarrow>
          [Entry ErrorLevel ''Failed to restart daemonset''
             [(''namespace'', FString ns), (''daemonset'', FString (Name w)),
              (''error'', FError e)]]) @ dsLogs ns trs"
  by (simp add: dsLogs_def)

lemma restartDaemonSetsItems_trace:
  "\<exists>trs. map fst trs = filter (\<lambda>w. Contains (ToLower (Name w)) (podFilter rc)) items \<and>
     calls (snd (restartDaemonSetsItems tm rc ns items count s)) = calls s @ dsCalls tm ns trs \<and>
     fst (restartDaemonSetsItems tm rc ns items count s) =
        count + of_nat (length (filter (\<lambda>(w, t, r). r = None) trs)) \<and>
     metadata (snd (restartDaemonSetsItems tm rc ns items count s)) = metadata s \<and>
     consistent tm (cs rc) (calls s) (dsCalls tm ns trs) \<and>
     snd (restartDaemonSetsItems tm rc ns items count s) =
       s\<lparr>calls := calls s @ dsCalls tm ns trs, logged := logged s @ dsLogs ns trs\<rparr>"
proof (induction items arbitrary: count s)
  case Nil
  show ?case by (rule exI [of _ "[]"]) (simp add: dsCalls_Nil dsLogs_Nil)
next
  case (Cons w items)
  show ?case
  proof (cases "Contains (ToLower (Name w)) (podFilter rc)")
    case False
    then show ?thesis using Cons.IH [of count s] by simp
  next
    case True
    define s1 where "s1 = s\<lparr>logged := logged s @ [Entry InfoLevel ''Restarting daemonset''
                   [(''namespace'', FString ns), (''daemonset'', FString (Name w))]]\<rparr>"
    define now where "now = Now tm (calls s1)"
    define w' where "w' = w\<lparr>Annotations :=
        Some ((case Annotations w of None \<Rightarrow> Map.empty | Some m \<Rightarrow> m)
          (restartedAt \<mapsto> Format tm now RFC3339))\<rparr>"
    define s2 where "s2 = s1\<lparr>calls := calls s1 @ [CallNow now]\<rparr>"
    define err where "err = DaemonSetsUpdate (cs rc) (calls s2) ns w'"
    define s3 where "s3 = s2\<lparr>calls := calls s2 @ [CallDaemonSetsUpdate ns w' err]\<rparr>"
    define s4 where "s4 = (case err of None \<Rightarrow> s3 | Some e \<Rightarrow>
        s3\<lparr>logged := logged s3 @ [Entry ErrorLevel ''Failed to restart daemonset''
                     [(''namespace'', FString ns), (''daemonset'', FString (Name w')),
                      (''error'', FError e)]]\<rparr>)"
    define c4 where "c4 = (case err of None \<Rightarrow> count + 1 | Some e \<Rightarrow> count)"
    have step: "restartDaemonSetsItems tm rc ns (w # items) count s =
        restartDaemonSetsItems tm rc ns items c4 s4"
      using True
      by (simp add: Let_def s1_def now_def w'_def s2_def err_def s3_def s4_def c4_def
               split: option.splits)
    have h4: "calls s4 = calls s @ [CallNow now, CallDaemonSetsUpdate ns w' err]"
      and m4: "metadata s4 = metadata s"
      by (simp_all add: s4_def s3_def s2_def s1_def split: option.splits)
    from Cons.IH [of c4 s4] obtain trs where
      t1: "map fst trs = filter (\<lambda>w. Contains (ToLower (Name w)) (podFilter rc)) items"
      and t2: "calls (snd (restartDaemonSetsItems tm rc ns items c4 s4)) =
        calls s4 @ dsCalls tm ns trs"
      and t3: "fst (restartDaemonSetsItems tm rc ns items c4 s4) =
        c4 + of_nat (length (filter (\<lambda>(w, t, r). r = None) trs))"
      and t4: "metadata (snd (restartDaemonSetsItems tm rc ns items c4 s4)) = metadata s4"
      and t5: "consistent tm (cs rc) (calls s4) (dsCalls tm ns trs)"
      and t6: "snd (restartDaemonSetsItems tm rc ns items c4 s4) =
        s4\<lparr>calls := calls s4 @ dsCalls tm ns trs, logged := logged s4 @ dsLogs ns trs\<rparr>"
      by blast
    show ?thesis
    proof (rule exI [of _ "(w, now, err) # trs"], intro conjI)
      show "map fst ((w, now, err) # trs) =
          filter (\<lambda>w. Contains (ToLower (Name w)) (podFilter rc)) (w # items)"
        using True t1 by simp
      show "calls (snd (restartDaemonSetsItems tm rc ns (w # items) count s)) =
          calls s @ dsCalls tm ns ((w, now, err) # trs)"
        unfolding step t2 h4 by (simp add: dsCalls_Cons w'_def)
      show "fst (restartDaemonSetsItems tm rc ns (w # items) count s) =
          count + of_nat (length (filter (\<lambda>(w, t, r). r = None) ((w, now, err) # trs)))"
        unfolding step t3 by (cases err) (simp_all add: c4_def)
      show "metadata (snd (restartDaemonSetsItems tm rc ns (w # items) count s)) = metadata s"
        unfolding step t4 m4 ..
      have ev: "dsCalls tm ns ((w, now, err) # trs) =
          [CallNow now, CallDaemonSetsUpdate ns w' err] @ dsCalls tm ns trs"
        by (simp add: dsCalls_Cons w'_def)
      have n: "now = Now tm (calls s)"
        by (simp add: now_def s1_def)
      have e: "err = DaemonSetsUpdate (cs rc) (calls s @ [CallNow now]) ns w'"
        by (simp add: err_def s2_def s1_def)
      show "consistent tm (cs rc) (calls s) (dsCalls tm ns ((w, now, err) # trs))"
        unfolding ev using t5 n e unfolding h4 by simp
      have s4eq: "s4 = s\<lparr>calls := calls s @ [CallNow now, CallDaemonSetsUpdate ns w' err],
          logged := logged s @ dsLogs ns [(w, now, err)]\<rparr>"
        by (cases err)
          (simp_all add: s4_def s3_def s2_def s1_def w'_def dsLogs_Cons dsLogs_Nil)
      show "snd (restartDaemonSetsItems tm rc ns (w # items) count s) =
          s\<lparr>calls := calls s @ dsCalls tm ns ((w, now, err) # trs),
            logged := logged s @ dsLogs ns ((w, now, err) # trs)\<rparr>"
        unfolding step t6 ev
        by (subst (1 2 3) s4eq) (simp add: dsLogs_Cons dsLogs_Nil)
    qed
  qed
qed

lemma restartDaemonSets_list_fails:
  assumes "DaemonSetsList (cs rc) (calls s) ns = Inl e"
  shows "restartDaemonSets tm rc ns s = ((0, Some e), s\<lparr>calls := calls s @ [CallDaemonSetsList ns]\<rparr>)"
  using assms by (simp add: restartDaemonSets_def)

lemma restartDaemonSets_list_ok:
  assumes "DaemonSetsList (cs rc) (calls s) ns = Inr items"
  shows "\<exists>trs. map fst trs = filter (\<lambda>w. Contains (ToLower (Name w)) (podFilter rc)) items \<and>
     calls (snd (restartDaemonSets tm rc ns s)) = calls s @ CallDaemonSetsList ns # dsCalls tm ns trs \<and>
     fst (restartDaemonSets tm rc ns s) =
        (of_nat (length (filter (\<lambda>(w, t, r). r = None) trs)), None) \<and>
     metadata (snd (restartDaemonSets tm rc ns s)) = metadata s \<and>
     consistent tm (cs rc) (calls s) (CallDaemonSetsList ns # dsCalls tm ns trs) \<and>
     snd (restartDaemonSets tm rc ns s) =
       s\<lparr>calls := calls s @ CallDaemonSetsList ns # dsCalls tm ns trs,
         logged := logged s @ dsLogs ns trs\<rparr>"
proof -
  define s1 where "s1 = s\<lparr>calls := calls s @ [CallDaemonSetsList ns]\<rparr>"
  have r: "restartDaemonSets tm rc ns s =
      ((fst (restartDaemonSetsItems tm rc ns items 0 s1), None),
       snd (restartDaemonSetsItems tm rc ns items 0 s1))"
    using assms by (simp add: restartDaemonSets_def s1_def split: prod.splits)
  from restartDaemonSetsItems_trace [of rc items tm ns 0 s1] obtain trs where
    t1: "map fst trs = filter (\<lambda>w. Contains (ToLower (Name w)) (podFilter rc)) items"
    and t2: "calls (snd (restartDaemonSetsItems tm rc ns items 0 s1)) = calls s1 @ dsCalls tm ns trs"
    and t3: "fst (restartDaemonSetsItems tm rc ns items 0 s1) =
        0 + of_nat (length (filter (\<lambda>(w, t, r). r = None) trs))"
    and t4: "metadata (snd (restartDaemonSetsItems tm rc ns items 0 s1)) = metadata s1"
    and t5: "consistent tm (cs rc) (calls s1) (dsCalls tm ns trs)"
    and t6: "snd (restartDaemonSetsItems tm rc ns items 0 s1) =
        s1\<lparr>calls := calls s1 @ dsCalls tm ns trs, logged := logged s1 @ dsLogs ns trs\<rparr>"
    by blast
  have s1: "calls s1 = calls s @ [CallDaemonSetsList ns]" "metadata s1 = metadata s"
    by (simp_all add: s1_def)
  have full: "snd (restartDaemonSets tm rc ns s) =
       s\<lparr>calls := calls s @ CallDaemonSetsList ns # dsCalls tm ns trs,
         logged := logged s @ dsLogs ns trs\<rparr>"
    unfolding r snd_conv t6 by (simp add: s1_def)
  show ?thesis
    using t5 full by (intro exI [of _ trs]) (simp add: r t1 t2 t3 t4 s1)
qed

lemma restartDaemonSets_count:
  assumes ok: "DaemonSetsList (cs rc) (calls s) ns = Inr items"
    and len: "length items < 2 ^ 63"
  shows "snd (fst (restartDaemonSets tm rc ns s)) = None \<and>
     0 \<le> sint (fst (fst (restartDaemonSets tm rc ns s))) \<and>
     sint (fst (fst (restartDaemonSets tm rc ns s))) \<le> int (length items)"
proof -
  from restartDaemonSets_list_ok [OF ok, where tm = tm] obtain trs where
    t1: "map fst trs = filter (\<lambda>w. Contains (ToLower (Name w)) (podFilter rc)) items"
    and t2: "calls (snd (restartDaemonSets tm rc ns s)) =
        calls s @ CallDaemonSetsList ns # dsCalls tm ns trs"
    and t3: "fst (restartDaemonSets tm rc ns s) =
        (of_nat (length (filter (\<lambda>(w, t, r). r = None) trs)), None)"
    by blast
  define k where "k = length (filter (\<lambda>(w, t, r). r = None) trs)"
  have "k \<le> length trs" by (simp add: k_def)
  also have "length trs = length (map fst trs)" by simp
  also have "\<dots> \<le> length items" unfolding t1 by simp
  finally have k: "k \<le> length items" .
  with len have "k < 2 ^ 63" by simp
  then have "sint (of_nat k :: go_int) = int k" by (rule sint_of_nat_small)
  with k show ?thesis by (simp add: t3 k_def [symmetric])
qed

lemma dsUpdates_append: "dsUpdates (xs @ ys) = dsUpdates xs @ dsUpdates ys"
  by (induction xs rule: dsUpdates.induct) simp_all

lemma dsUpdates_dsCalls:
  "dsUpdates (dsCalls tm ns trs) =
     map (\<lambda>(w, t, r).
       (w\<lparr>Annotations := Some ((case Annotations w of None \<Rightarrow> Map.empty | Some m \<Rightarrow> m)
              (restartedAt \<mapsto> Format tm t RFC3339))\<rparr>, r)) trs"
  by (induction trs) (simp_all add: dsCalls_def case_prod_unfold fun_upd_def)

lemma listCalls_dsCalls: "listCalls (dsCalls tm ns trs) = []"
  by (induction trs) (auto simp: dsCalls_Nil dsCalls_Cons listCalls_def)

lemma restartDaemonSets_updates:
  assumes ok: "DaemonSetsList (cs rc) (calls s) ns = Inr items"
  shows "map (Name \<circ> fst)
        (dsUpdates (drop (length (calls s)) (calls (snd (restartDaemonSets tm rc ns s))))) =
      map Name (filter (\<lambda>w. Contains (ToLower (Name w)) (podFilter rc)) items)"
    and "fst (restartDaemonSets tm rc ns s) =
      (of_nat (length (succeeded
         (dsUpdates (drop (length (calls s)) (calls (snd (restartDaemonSets tm rc ns s))))))), None)"
    and "metadata (snd (restartDaemonSets tm rc ns s)) = metadata s"
proof -
  from restartDaemonSets_list_ok [OF ok, where tm = tm] obtain trs where
    t1: "map fst trs = filter (\<lambda>w. Contains (ToLower (Name w)) (podFilter rc)) items"
    and t2: "calls (snd (restartDaemonSets tm rc ns s)) =
        calls s @ CallDaemonSetsList ns # dsCalls tm ns trs"
    and t3: "fst (restartDaemonSets tm rc ns s) =
        (of_nat (length (filter (\<lambda>(w, t, r). r = None) trs)), None)"
    and t4: "metadata (snd (restartDaemonSets tm rc ns s)) = metadata s"
    by blast
  have new: "dsUpdates (drop (length (calls s)) (calls (snd (restartDaemonSets tm rc ns s)))) =
      map (\<lambda>(w, t, r).
       (w\<lparr>Annotations := Some ((case Annotations w of None \<Rightarrow> Map.empty | Some m \<Rightarrow> m)
              (restartedAt \<mapsto> Format tm t RFC3339))\<rparr>, r)) trs"
    unfolding t2 by (simp add: dsUpdates_dsCalls)
  show "map (Name \<circ> fst)
        (dsUpdates (drop (length (calls s)) (calls (snd (restartDaemonSets tm rc ns s))))) =
      map Name (filter (\<lambda>w. Contains (ToLower (Name w)) (podFilter rc)) items)"
    unfolding new map_Name_fst_map t1 ..
  show "fst (restartDaemonSets tm rc ns s) =
      (of_nat (length (succeeded
         (dsUpdates (drop (length (calls s)) (calls (snd (restartDaemonSets tm rc ns s))))))), None)"
    unfolding new length_succeeded_map t3 ..
  show "metadata (snd (restartDaemonSets tm rc ns s)) = metadata s" by (rule t4)
qed

lemma Run_daemonsets_list_fails:
  assumes "DaemonSetsList (cs rc) (calls s) ns = Inl e"
  shows "Run_daemonsets tm rc ns s =
     s\<lparr>calls := calls s @ [CallDaemonSetsList ns],
       metadata := (metadata s)\<lparr>Errors := Errors (metadata s) @
          [Errorf (''daemonsets in '' @ ns @ '': '') e]\<rparr>,
       logged := logged s @ [Entry ErrorLevel ''Failed to restart daemonsets''
          [(''namespace'', FString ns), (''error'', FError e)]]\<rparr>"
  by (simp add: Run_daemonsets_def restartDaemonSets_list_fails [OF assms])

lemma Run_daemonsets_list_ok:
  assumes ok: "DaemonSetsList (cs rc) (calls s) ns = Inr items"
  shows "Run_daemonsets tm rc ns s =
     (snd (restartDaemonSets tm rc ns s))\<lparr>metadata := (metadata s)\<lparr>DaemonSetsRestarted :=
        DaemonSetsRestarted (metadata s) + fst (fst (restartDaemonSets tm rc ns s))\<rparr>\<rparr>"
proof -
  have "snd (fst (restartDaemonSets tm rc ns s)) = None"
    using restartDaemonSets_updates(2) [OF ok, of tm] by simp
  moreover have "metadata (snd (restartDaemonSets tm rc ns s)) = metadata s"
    by (rule restartDaemonSets_updates(3) [OF ok])
  ultimately show ?thesis
    by (cases "restartDaemonSets tm rc ns s") (auto simp: Run_daemonsets_def)
qed

lemma Run_daemonsets_listCalls:
  "listCalls (calls (Run_daemonsets tm rc ns s)) = listCalls (calls s) @ [CallDaemonSetsList ns]"
proof (cases "DaemonSetsList (cs rc) (calls s) ns")
  case (Inl e)
  show ?thesis
    by (simp add: Run_daemonsets_list_fails [OF Inl] listCalls_def)
next
  case (Inr items)
  from restartDaemonSets_list_ok [OF Inr, where tm = tm] obtain trs where
    t1: "map fst trs = filter (\<lambda>w. Contains (ToLower (Name w)) (podFilter rc)) items"
    and t2: "calls (snd (restartDaemonSets tm rc ns s)) =
        calls s @ CallDaemonSetsList ns # dsCalls tm ns trs"
    by blast
  have "listCalls (calls s @ CallDaemonSetsList ns # dsCalls tm ns trs) =
      listCalls (calls s) @ [CallDaemonSetsList ns]"
    using listCalls_dsCalls [of tm ns trs] by (simp add: listCalls_def)
  then show ?thesis
    by (simp add: Run_daemonsets_list_ok [OF Inr] t2)
qed

lemma Run_daemonsets_metadata:
  "\<exists>es c. length es \<le> 1 \<and>
     metadata (Run_daemonsets tm rc ns s) =
       (metadata s)\<lparr>Errors := Errors (metadata s) @ es,
         DaemonSetsRestarted := DaemonSetsRestarted (metadata s) + c\<rparr>"
proof (cases "DaemonSetsList (cs rc) (calls s) ns")
  case (Inl e)
  show ?thesis
    by (rule exI [of _ "[Errorf (''daemonsets in '' @ ns @ '': '') e]"], rule exI [of _ 0])
      (simp add: Run_daemonsets_list_fails [OF Inl])
next
  case (Inr items)
  show ?thesis
    by (rule exI [of _ "[]"], rule exI [of _ "fst (fst (restartDaemonSets tm rc ns s))"])
      (simp add: Run_daemonsets_list_ok [OF Inr])
qed

lemma Run_daemonsets_bounds:
  "NamespacesProcessed (metadata (Run_daemonsets tm rc ns s)) = NamespacesProcessed (metadata s)"
  "length (Errors (metadata (Run_daemonsets tm rc ns s))) \<le> Suc (length (Errors (metadata s)))"
  "StartTime (metadata (Run_daemonsets tm rc ns s)) = StartTime (metadata s)"
  using Run_daemonsets_metadata [of tm rc ns s] by auto

lemma restartDaemonSets_consistent:
  assumes ok: "DaemonSetsList (cs rc) (calls s) ns = Inr items"
  shows "consistent tm (cs rc) (calls s)
     (drop (length (calls s)) (calls (snd (restartDaemonSets tm rc ns s))))"
proof -
  from restartDaemonSets_list_ok [OF ok, where tm = tm] obtain trs where
    t2: "calls (snd (restartDaemonSets tm rc ns s)) =
        calls s @ CallDaemonSetsList ns # dsCalls tm ns trs"
    and t5: "consistent tm (cs rc) (calls s) (CallDaemonSetsList ns # dsCalls tm ns trs)"
    by blast
  show ?thesis unfolding t2 using t5 by simp
qed

lemma length_dsCalls: "length (dsCalls tm ns trs) = 2 * length trs"
  by (induction trs) (simp_all add: dsCalls_def case_prod_unfold)

lemma Run_daemonsets_growth:
  "\<exists>k es. k + length (calls s) \<le> length (calls (Run_daemonsets tm rc ns s)) \<and> length es \<le> 1 \<and>
     metadata (Run_daemonsets tm rc ns s) =
       (metadata s)\<lparr>Errors := Errors (metadata s) @ es,
         DaemonSetsRestarted := DaemonSetsRestarted (metadata s) + of_nat k\<rparr>"
proof (cases "DaemonSetsList (cs rc) (calls s) ns")
  case (Inl e)
  show ?thesis
    by (rule exI [of _ 0], rule exI [of _ "[Errorf (''daemonsets in '' @ ns @ '': '') e]"])
      (simp add: Run_daemonsets_list_fails [OF Inl])
next
  case (Inr items)
  from restartDaemonSets_list_ok [OF Inr, where tm = tm] obtain trs where
    t2: "calls (snd (restartDaemonSets tm rc ns s)) =
        calls s @ CallDaemonSetsList ns # dsCalls tm ns trs"
    and t3: "fst (restartDaemonSets tm rc ns s) =
        (of_nat (length (filter (\<lambda>(w, t, r). r = None) trs)), None)"
    by blast
  define k where "k = length (filter (\<lambda>(w, t, r). r = None) trs)"
  have "k \<le> length trs" by (simp add: k_def)
  then have "k + length (calls s) \<le> length (calls (Run_daemonsets tm rc ns s))"
    by (simp add: Run_daemonsets_list_ok [OF Inr] t2 length_dsCalls)
  moreover have "metadata (Run_daemonsets tm rc ns s) =
       (metadata s)\<lparr>Errors := Errors (metadata s) @ [],
         DaemonSetsRestarted := DaemonSetsRestarted (metadata s) + of_nat k\<rparr>"
    by (simp add: Run_daemonsets_list_ok [OF Inr] t3 k_def)
  ultimately show ?thesis
    by (intro exI [of _ k] exI [of _ "[]"]) simp
qed

lemma Run_daemonsets_ok_state:
  assumes ok: "DaemonSetsList (cs rc) (calls s) ns = Inr items"
  shows "\<exists>trs. map fst trs = filter (\<lambda>w. Contains (ToLower (Name w)) (podFilter rc)) items \<and>
     consistent tm (cs rc) (calls s) (CallDaemonSetsList ns # dsCalls tm ns trs) \<and>
     Run_daemonsets tm rc ns s =
       s\<lparr>calls := calls s @ CallDaemonSetsList ns # dsCalls tm ns trs,
         logged := logged s @ dsLogs ns trs,
         metadata := (metadata s)\<lparr>DaemonSetsRestarted := DaemonSetsRestarted (metadata s) +
           of_nat (length (filter (\<lambda>(w, t, r). r = None) trs))\<rparr>\<rparr>"
proof -
  from restartDaemonSets_list_ok [OF ok, where tm = tm] obtain trs where
    t1: "map fst trs = filter (\<lambda>w. Contains (ToLower (Name w)) (podFilter rc)) items"
    and t3: "fst (restartDaemonSets tm rc ns s) =
        (of_nat (length (filter (\<lambda>(w, t, r). r = None) trs)), None)"
    and t5: "consistent tm (cs rc) (calls s) (CallDaemonSetsList ns # dsCalls tm ns trs)"
    and t6: "snd (restartDaemonSets tm rc ns s) =
       s\<lparr>calls := calls s @ CallDaemonSetsList ns # dsCalls tm ns trs,
         logged := logged s @ dsLogs ns trs\<rparr>"
    by blast
  have "Run_daemonsets tm rc ns s =
       s\<lparr>calls := calls s @ CallDaemonSetsList ns # dsCalls tm ns trs,
         logged := logged s @ dsLogs ns trs,
         metadata := (metadata s)\<lparr>DaemonSetsRestarted := DaemonSetsRestarted (metadata s) +
           of_nat (length (filter (\<lambda>(w, t, r). r = None) trs))\<rparr>\<rparr>"
    unfolding Run_daemonsets_list_ok [OF ok] t6 by (simp add: t3)
  with t1 t5 show ?thesis by blast
qed

section \<open>Run: its blocks in sequence\<close>

lemma Run_deployments_frame:
  "StatefulSetsRestarted (metadata (Run_deployments tm rc ns s)) =
     StatefulSetsRestarted (metadata s)"
  "DaemonSetsRestarted (metadata (Run_deployments tm rc ns s)) =
     DaemonSetsRestarted (metadata s)"
  using Run_deployments_metadata [of tm rc ns s] by auto

lemma Run_statefulsets_frame:
  "DeploymentsRestarted (metadata (Run_statefulsets tm rc ns s)) =
     DeploymentsRestarted (metadata s)"
  "DaemonSetsRestarted (metadata (Run_statefulsets tm rc ns s)) =
     DaemonSetsRestarted (metadata s)"
  using Run_statefulsets_metadata [of tm rc ns s] by auto

lemma Run_daemonsets_frame:
  "DeploymentsRestarted (metadata (Run_daemonsets tm rc ns s)) =
     DeploymentsRestarted (metadata s)"
  "StatefulSetsRestarted (metadata (Run_daemonsets tm rc ns s)) =
     StatefulSetsRestarted (metadata s)"
  using Run_daemonsets_metadata [of tm rc ns s] by auto

lemma Run_enter_simps:
  "calls (Run_enter ns s) = calls s"
  "DeploymentsRestarted (metadata (Run_enter ns s)) = DeploymentsRestarted (metadata s)"
  "StatefulSetsRestarted (metadata (Run_enter ns s)) = StatefulSetsRestarted (metadata s)"
  "DaemonSetsRestarted (metadata (Run_enter ns s)) = DaemonSetsRestarted (metadata s)"
  "Errors (metadata (Run_enter ns s)) = Errors (metadata s)"
  "NamespacesProcessed (metadata (Run_enter ns s)) = NamespacesProcessed (metadata s) + 1"
  by (simp_all add: Run_enter_def)

lemma Run_namespace_listCalls:
  "listCalls (calls (Run_namespace tm rc ns s)) =
     listCalls (calls s) @ [CallDeploymentsList ns, CallStatefulSetsList ns, CallDaemonSetsList ns]"
  by (simp add: Run_namespace_def Run_daemonsets_listCalls Run_statefulsets_listCalls
      Run_deployments_listCalls Run_enter_simps)

lemma Run_namespaces_listCalls:
  "listCalls (calls (Run_namespaces tm rc items s)) =
     listCalls (calls s) @
     concat (map (\<lambda>ns. [CallDeploymentsList ns, CallStatefulSetsList ns, CallDaemonSetsList ns])
       items)"
  by (induction items arbitrary: s) (simp_all add: Run_namespace_listCalls)

lemma Run_init_simps:
  "calls (Run_init tm s) = calls s @ [CallNow (Now tm (calls s))]"
  "logged (Run_init tm s) = logged s"
  "metadata (Run_init tm s) = newMetadata (Now tm (calls s))"
  by (simp_all add: Run_init_def Let_def)

lemma Run_summary_simps:
  "calls (Run_summary tm s) = calls s @ [CallNow (Now tm (calls s))]"
  "logged (Run_summary tm s) = logged s @ [summary tm (metadata s) (Now tm (calls s))]"
  "metadata (Run_summary tm s) = metadata s"
  by (simp_all add: Run_summary_def Let_def)

lemma Run_list_fails:
  assumes "NamespacesList (cs rc) (calls s @ [CallNow (Now tm (calls s))]) = Inl e"
  shows "Run tm rc s =
     (Some (Errorf ''failed to list namespaces: '' e),
      (Run_init tm s)\<lparr>calls := calls s @ [CallNow (Now tm (calls s)), CallNamespacesList]\<rparr>)"
  using assms by (simp add: Run_def Let_def Run_init_simps)

lemma Run_list_ok:
  assumes "NamespacesList (cs rc) (calls s @ [CallNow (Now tm (calls s))]) = Inr items"
  shows "Run tm rc s =
     (None, Run_summary tm (Run_namespaces tm rc items
        ((Run_init tm s)\<lparr>calls := calls s @ [CallNow (Now tm (calls s)), CallNamespacesList]\<rparr>)))"
  using assms by (simp add: Run_def Let_def Run_init_simps)

lemma last_Run_points: "last (Run_points tm rc items s) = Run_namespaces tm rc items s"
proof (induction items arbitrary: s)
  case Nil
  show ?case by simp
next
  case (Cons ns items)
  have ne: "Run_points tm rc items s' \<noteq> []" for s'
    by (cases items) (simp_all add: Let_def)
  show ?case
    by (simp add: Let_def ne Cons.IH Run_namespace_def)
qed

lemma last_RunPoints: "last (RunPoints tm rc s) = snd (Run tm rc s)"
  by (cases "NamespacesList (cs rc) (calls (Run_init tm s))")
    (simp_all add: RunPoints_def Run_def Let_def)

lemma Run_namespace_counters_dep:
  assumes "DeploymentsList (cs rc) (calls (Run_enter ns s)) ns = Inl e"
  shows "DeploymentsRestarted (metadata (Run_namespace tm rc ns s)) =
     DeploymentsRestarted (metadata s)"
  by (simp add: Run_namespace_def Run_daemonsets_frame Run_statefulsets_frame
      Run_deployments_list_fails [OF assms] Run_enter_simps)

lemma Run_namespace_counters_sts:
  assumes "StatefulSetsList (cs rc) (calls (Run_deployments tm rc ns (Run_enter ns s))) ns = Inl e"
  shows "StatefulSetsRestarted (metadata (Run_namespace tm rc ns s)) =
     StatefulSetsRestarted (metadata s)"
  by (simp add: Run_namespace_def Run_daemonsets_frame Run_deployments_frame
      Run_statefulsets_list_fails [OF assms] Run_enter_simps)

lemma Run_namespace_counters_ds:
  assumes "DaemonSetsList (cs rc)
     (calls (Run_statefulsets tm rc ns (Run_deployments tm rc ns (Run_enter ns s)))) ns = Inl e"
  shows "DaemonSetsRestarted (metadata (Run_namespace tm rc ns s)) =
     DaemonSetsRestarted (metadata s)"
  by (simp add: Run_namespace_def Run_statefulsets_frame Run_deployments_frame
      Run_daemonsets_list_fails [OF assms] Run_enter_simps)

lemma Run_listCalls:
  assumes "NamespacesList (cs rc) (calls s @ [CallNow (Now tm (calls s))]) = Inr items"
  shows "listCalls (calls (snd (Run tm rc s))) =
     listCalls (calls s) @ CallNamespacesList #
     concat (map (\<lambda>ns. [CallDeploymentsList ns, CallStatefulSetsList ns, CallDaemonSetsList ns])
       items)"
  by (simp add: Run_list_ok [OF assms] Run_summary_simps Run_namespaces_listCalls
      listCalls_append) (simp add: listCalls_def)

lemma Run_points_invariant:
  assumes "NamespacesProcessed (metadata s) = of_nat n"
    and "length (Errors (metadata s)) \<le> 3 * n"
    and "n + length items < 2 ^ 63"
  shows "list_all (\<lambda>st. int (length (Errors (metadata st))) \<le>
            3 * sint (NamespacesProcessed (metadata st))) (Run_points tm rc items s) \<and>
         NamespacesProcessed (metadata (Run_namespaces tm rc items s)) = of_nat (n + length items) \<and>
         length (Errors (metadata (Run_namespaces tm rc items s))) \<le> 3 * (n + length items)"
  using assms
proof (induction items arbitrary: s n)
  case Nil
  then have "sint (NamespacesProcessed (metadata s)) = int n"
    by (simp add: sint_of_nat_small)
  with Nil show ?case by simp
next
  case (Cons ns items)
  define s1 where "s1 = Run_enter ns s"
  define s2 where "s2 = Run_deployments tm rc ns s1"
  define s3 where "s3 = Run_statefulsets tm rc ns s2"
  define s4 where "s4 = Run_daemonsets tm rc ns s3"
  have n: "n < 2 ^ 63" and n1: "Suc n < 2 ^ 63" and rest: "Suc n + length items < 2 ^ 63"
    using Cons.prems(3) by simp_all
  have p0: "sint (NamespacesProcessed (metadata s)) = int n"
    using Cons.prems(1) n by (simp add: sint_of_nat_small)
  have np1: "NamespacesProcessed (metadata s1) = of_nat (Suc n)"
    by (simp add: s1_def Run_enter_simps Cons.prems(1))
  have np2: "NamespacesProcessed (metadata s2) = of_nat (Suc n)"
    by (simp add: s2_def Run_deployments_bounds np1)
  have np3: "NamespacesProcessed (metadata s3) = of_nat (Suc n)"
    by (simp add: s3_def Run_statefulsets_bounds np2)
  have np4: "NamespacesProcessed (metadata s4) = of_nat (Suc n)"
    by (simp add: s4_def Run_daemonsets_bounds np3)
  have sn: "sint (of_nat (Suc n) :: go_int) = int (Suc n)"
    using n1 by (rule sint_of_nat_small)
  have e1: "length (Errors (metadata s1)) \<le> 3 * n"
    by (simp add: s1_def Run_enter_simps Cons.prems(2))
  have e2: "length (Errors (metadata s2)) \<le> 3 * n + 1"
    using Run_deployments_bounds(2) [of tm rc ns s1] e1 by (simp add: s2_def)
  have e3: "length (Errors (metadata s3)) \<le> 3 * n + 2"
    using Run_statefulsets_bounds(2) [of tm rc ns s2] e2 by (simp add: s3_def)
  have e4: "length (Errors (metadata s4)) \<le> 3 * Suc n"
    using Run_daemonsets_bounds(2) [of tm rc ns s3] e3 by (simp add: s4_def)
  note IH = Cons.IH [OF np4 e4 rest]
  have unfold: "Run_points tm rc (ns # items) s = s # s1 # s2 # s3 # Run_points tm rc items s4"
    by (simp add: Let_def s1_def s2_def s3_def s4_def)
  have unfold': "Run_namespaces tm rc (ns # items) s = Run_namespaces tm rc items s4"
    by (simp add: Run_namespace_def s1_def s2_def s3_def s4_def)
  have P0: "int (length (Errors (metadata s))) \<le> 3 * sint (NamespacesProcessed (metadata s))"
    using Cons.prems(2) unfolding p0 by simp
  have P1: "int (length (Errors (metadata s1))) \<le> 3 * sint (NamespacesProcessed (metadata s1))"
    using e1 unfolding np1 sn by simp
  have P2: "int (length (Errors (metadata s2))) \<le> 3 * sint (NamespacesProcessed (metadata s2))"
    using e2 unfolding np2 sn by simp
  have P3: "int (length (Errors (metadata s3))) \<le> 3 * sint (NamespacesProcessed (metadata s3))"
    using e3 unfolding np3 sn by simp
  show ?case
    unfolding unfold unfold'
    using IH P0 P1 P2 P3 by simp
qed

section \<open>Run: the counters count updates\<close>

lemma tallied_Run_enter: "tallied s \<Longrightarrow> tallied (Run_enter ns s)"
  by (simp add: tallied_def Run_enter_def)

lemma tallied_Run_deployments:
  assumes "tallied s"
  shows "tallied (Run_deployments tm rc ns s)"
proof -
  from assms obtain a b c where
    abc: "DeploymentsRestarted (metadata s) = of_nat a"
      "StatefulSetsRestarted (metadata s) = of_nat b"
      "DaemonSetsRestarted (metadata s) = of_nat c"
      "a + b + c \<le> length (calls s)"
    unfolding tallied_def by blast
  from Run_deployments_growth [of s tm rc ns] obtain k es where
    g: "k + length (calls s) \<le> length (calls (Run_deployments tm rc ns s))"
    and m: "metadata (Run_deployments tm rc ns s) =
       (metadata s)\<lparr>Errors := Errors (metadata s) @ es,
         DeploymentsRestarted := DeploymentsRestarted (metadata s) + of_nat k\<rparr>"
    by blast
  show ?thesis
    unfolding tallied_def
    by (rule exI [of _ "a + k"], rule exI [of _ b], rule exI [of _ c])
      (use abc g in \<open>simp add: m\<close>)
qed

lemma tallied_Run_statefulsets:
  assumes "tallied s"
  shows "tallied (Run_statefulsets tm rc ns s)"
proof -
  from assms obtain a b c where
    abc: "DeploymentsRestarted (metadata s) = of_nat a"
      "StatefulSetsRestarted (metadata s) = of_nat b"
      "DaemonSetsRestarted (metadata s) = of_nat c"
      "a + b + c \<le> length (calls s)"
    unfolding tallied_def by blast
  from Run_statefulsets_growth [of s tm rc ns] obtain k es where
    g: "k + length (calls s) \<le> length (calls (Run_statefulsets tm rc ns s))"
    and m: "metadata (Run_statefulsets tm rc ns s) =
       (metadata s)\<lparr>Errors := Errors (metadata s) @ es,
         StatefulSetsRestarted := StatefulSetsRestarted (metadata s) + of_nat k\<rparr>"
    by blast
  show ?thesis
    unfolding tallied_def
    by (rule exI [of _ a], rule exI [of _ "b + k"], rule exI [of _ c])
      (use abc g in \<open>simp add: m\<close>)
qed

lemma tallied_Run_daemonsets:
  assumes "tallied s"
  shows "tallied (Run_daemonsets tm rc ns s)"
proof -
  from assms obtain a b c where
    abc: "DeploymentsRestarted (metadata s) = of_nat a"
      "StatefulSetsRestarted (metadata s) = of_nat b"
      "DaemonSetsRestarted (metadata s) = of_nat c"
      "a + b + c \<le> length (calls s)"
    unfolding tallied_def by blast
  from Run_daemonsets_growth [of s tm rc ns] obtain k es where
    g: "k + length (calls s) \<le> length (calls (Run_daemonsets tm rc ns s))"
    and m: "metadata (Run_daemonsets tm rc ns s) =
       (metadata s)\<lparr>Errors := Errors (metadata s) @ es,
         DaemonSetsRestarted := DaemonSetsRestarted (metadata s) + of_nat k\<rparr>"
    by blast
  show ?thesis
    unfolding tallied_def
    by (rule exI [of _ a], rule exI [of _ b], rule exI [of _ "c + k"])
      (use abc g in \<open>simp add: m\<close>)
qed

lemma tallied_Run_summary:
  assumes "tallied s"
  shows "tallied (Run_summary tm s)"
proof -
  from assms obtain a b c where
    abc: "DeploymentsRestarted (metadata s) = of_nat a"
      "StatefulSetsRestarted (metadata s) = of_nat b"
      "DaemonSetsRestarted (metadata s) = of_nat c"
      "a + b + c \<le> length (calls s)"
    unfolding tallied_def by blast
  show ?thesis
    unfolding tallied_def
    by (rule exI [of _ a], rule exI [of _ b], rule exI [of _ c])
      (use abc in \<open>simp add: Run_summary_simps\<close>)
qed

lemma tallied_Run_points:
  assumes "tallied s"
  shows "list_all tallied (Run_points tm rc items s) \<and> tallied (Run_namespaces tm rc items s)"
  using assms
proof (induction items arbitrary: s)
  case Nil
  then show ?case by simp
next
  case (Cons ns items)
  define s1 where "s1 = Run_enter ns s"
  define s2 where "s2 = Run_deployments tm rc ns s1"
  define s3 where "s3 = Run_statefulsets tm rc ns s2"
  define s4 where "s4 = Run_daemonsets tm rc ns s3"
  have t1: "tallied s1" unfolding s1_def by (rule tallied_Run_enter [OF Cons.prems])
  have t2: "tallied s2" unfolding s2_def by (rule tallied_Run_deployments [OF t1])
  have t3: "tallied s3" unfolding s3_def by (rule tallied_Run_statefulsets [OF t2])
  have t4: "tallied s4" unfolding s4_def by (rule tallied_Run_daemonsets [OF t3])
  have unfold: "Run_points tm rc (ns # items) s = s # s1 # s2 # s3 # Run_points tm rc items s4"
    by (simp add: Let_def s1_def s2_def s3_def s4_def)
  have unfold': "Run_namespaces tm rc (ns # items) s = Run_namespaces tm rc items s4"
    by (simp add: Run_namespace_def s1_def s2_def s3_def s4_def)
  show ?case
    unfolding unfold unfold'
    using Cons.IH [OF t4] Cons.prems t1 t2 t3 by simp
qed

lemma tallied_RunPoints: "list_all tallied (RunPoints tm rc s)"
proof -
  define s1 where "s1 = (Run_init tm s)\<lparr>calls := calls (Run_init tm s) @ [CallNamespacesList]\<rparr>"
  have t0: "tallied (Run_init tm s)"
    unfolding tallied_def
    by (rule exI [of _ 0], rule exI [of _ 0], rule exI [of _ 0])
      (simp add: Run_init_simps newMetadata_def)
  have t1: "tallied s1"
    unfolding tallied_def
    by (rule exI [of _ 0], rule exI [of _ 0], rule exI [of _ 0])
      (simp add: s1_def Run_init_simps newMetadata_def)
  show ?thesis
  proof (cases "NamespacesList (cs rc) (calls (Run_init tm s))")
    case (Inl e)
    then show ?thesis
      using t0 t1 by (simp add: RunPoints_def Let_def s1_def)
  next
    case (Inr items)
    note p = tallied_Run_points [OF t1, of tm rc items]
    have "tallied (Run_summary tm (Run_namespaces tm rc items s1))"
      using p by (simp add: tallied_Run_summary)
    then show ?thesis
      using Inr t0 t1 p by (simp add: RunPoints_def Let_def s1_def)
  qed
qed

lemma tallied_sum:
  assumes "tallied st" and "length (calls st) < 2 ^ 63"
  shows "sint (totalRestarted (metadata st)) =
     sint (DeploymentsRestarted (metadata st)) + sint (StatefulSetsRestarted (metadata st)) +
     sint (DaemonSetsRestarted (metadata st))"
proof -
  from assms(1) obtain a b c where
    abc: "DeploymentsRestarted (metadata st) = of_nat a"
      "StatefulSetsRestarted (metadata st) = of_nat b"
      "DaemonSetsRestarted (metadata st) = of_nat c"
      "a + b + c \<le> length (calls st)"
    unfolding tallied_def by blast
  with assms(2) have small: "a < 2 ^ 63" "b < 2 ^ 63" "c < 2 ^ 63" "a + b + c < 2 ^ 63"
    by simp_all
  have "totalRestarted (metadata st) = of_nat (a + b + c)"
    by (simp add: totalRestarted_def abc)
  then show ?thesis
    using small by (simp add: abc sint_of_nat_small del: of_nat_add)
qed

lemmas run_defs = Run_def Run_init_def Run_namespace_def Run_enter_def
  Run_deployments_def Run_statefulsets_def Run_daemonsets_def
  restartDeployments_def restartStatefulSets_def restartDaemonSets_def Run_summary_def
  Let_def

section \<open>The claims\<close>

text \<open>
  C1. The procedures select a workload when its lowercased name contains the filter as
  given: the filter itself is not lowercased. Asked for \<open>DB\<close>, the run on the example
  cluster updates nothing, in any kind, although the lowercased names \<open>db-primary\<close>,
  \<open>db-a\<close> and \<open>db-agent\<close> contain the lowercased filter; asked for \<open>db\<close>, it restarts
  four workloads.
\<close>

theorem capital_filter_selects_nothing:
  "Contains (ToLower ''db-primary'') (ToLower ''DB'') \<and>
   DeploymentsList (cs exampleCapitals) (calls exampleStart) ''ns2'' =
      Inr [exampleWorkload ''db-primary'', exampleWorkload ''web''] \<and>
   restartDeployments exampleTime exampleCapitals ''ns2'' exampleStart =
      ((0, None), exampleStart\<lparr>calls := [CallDeploymentsList ''ns2'']\<rparr>) \<and>
   Contains (ToLower ''db-a'') (ToLower ''DB'') \<and>
   StatefulSetsList (cs exampleCapitals) (calls exampleStart) ''ns1'' =
      Inr [exampleWorkload ''db-a'', exampleWorkload ''db-b'', exampleWorkload ''db-c''] \<and>
   restartStatefulSets exampleTime exampleCapitals ''ns1'' exampleStart =
      ((0, None), exampleStart\<lparr>calls := [CallStatefulSetsList ''ns1'']\<rparr>) \<and>
   Contains (ToLower ''db-agent'') (ToLower ''DB'') \<and>
   DaemonSetsList (cs exampleCapitals) (calls exampleStart) ''ns2'' =
      Inr [\<lparr>Name = ''db-agent'', Annotations = Some [''team'' \<mapsto> ''data''], Other = ()\<rparr>] \<and>
   restartDaemonSets exampleTime exampleCapitals ''ns2'' exampleStart =
      ((0, None), exampleStart\<lparr>calls := [CallDaemonSetsList ''ns2'']\<rparr>) \<and>
   totalRestarted (metadata (snd (Run exampleTime exampleCapitals exampleStart))) = 0 \<and>
   totalRestarted (metadata (snd (Run exampleTime exampleClient exampleStart))) = 4"
  by (simp add: run_defs example_defs exampleCapitals_def ToLower_examples ToLower_DB
      totalRestarted_def)

text \<open>
  C2. If the namespace listing fails, \<open>Run\<close> returns the failure wrapped by
  \<open>fmt.Errorf\<close> under the text "failed to list namespaces: ", logs nothing (so no
  summary), calls nothing but the clock and the namespace listing (so no update), and
  leaves the fresh metadata: every counter 0 and no error. \<open>Run\<close> returns a non-nil error
  exactly when the namespace listing fails.
\<close>

theorem Run_fails_only_on_namespace_listing:
  "(fst (Run tm rc s) \<noteq> None) =
      isl (NamespacesList (cs rc) (calls s @ [CallNow (Now tm (calls s))])) \<and>
   (NamespacesList (cs rc) (calls s @ [CallNow (Now tm (calls s))]) = Inl e \<longrightarrow>
      fst (Run tm rc s) = Some (Errorf ''failed to list namespaces: '' e) \<and>
      ErrorText (Errorf ''failed to list namespaces: '' e) =
        ''failed to list namespaces: '' @ ErrorText e \<and>
      Unwrap (Errorf ''failed to list namespaces: '' e) = Some e \<and>
      logged (snd (Run tm rc s)) = logged s \<and>
      calls (snd (Run tm rc s)) = calls s @ [CallNow (Now tm (calls s)), CallNamespacesList] \<and>
      metadata (snd (Run tm rc s)) =
        \<lparr>StartTime = Now tm (calls s), DeploymentsRestarted = 0, StatefulSetsRestarted = 0,
         DaemonSetsRestarted = 0, NamespacesProcessed = 0, Errors = []\<rparr>)"
proof (intro conjI impI)
  show "(fst (Run tm rc s) \<noteq> None) =
      isl (NamespacesList (cs rc) (calls s @ [CallNow (Now tm (calls s))]))"
  proof (cases "NamespacesList (cs rc) (calls s @ [CallNow (Now tm (calls s))])")
    case (Inl e')
    then show ?thesis by (simp add: Run_list_fails [OF Inl])
  next
    case (Inr items)
    then show ?thesis by (simp add: Run_list_ok [OF Inr])
  qed
next
  assume f: "NamespacesList (cs rc) (calls s @ [CallNow (Now tm (calls s))]) = Inl e"
  note r = Run_list_fails [OF f]
  show "fst (Run tm rc s) = Some (Errorf ''failed to list namespaces: '' e)"
    by (simp add: r)
  show "ErrorText (Errorf ''failed to list namespaces: '' e) =
        ''failed to list namespaces: '' @ ErrorText e"
    by simp
  show "Unwrap (Errorf ''failed to list namespaces: '' e) = Some e"
    by simp
  show "logged (snd (Run tm rc s)) = logged s"
    by (simp add: r Run_init_simps)
  show "calls (snd (Run tm rc s)) = calls s @ [CallNow (Now tm (calls s)), CallNamespacesList]"
    by (simp add: r)
  show "metadata (snd (Run tm rc s)) =
        \<lparr>StartTime = Now tm (calls s), DeploymentsRestarted = 0, StatefulSetsRestarted = 0,
         DaemonSetsRestarted = 0, NamespacesProcessed = 0, Errors = []\<rparr>"
    by (simp add: r Run_init_simps newMetadata_def)
qed

theorem Run_fails_only_on_namespace_listing_witness:
  "NamespacesList (cs exampleDown) (calls exampleStart @ [CallNow (Now exampleTime (calls exampleStart))])
      = Inl (Err ''timeout'') \<and>
   Run exampleTime exampleDown exampleStart =
     (Some (Errorf ''failed to list namespaces: '' (Err ''timeout'')),
      \<lparr>calls = [CallNow 0, CallNamespacesList], logged = [], metadata = newMetadata 0\<rparr>) \<and>
   ErrorText (Errorf ''failed to list namespaces: '' (Err ''timeout'')) =
     ''failed to list namespaces: timeout''"
  using Run_fails_only_on_namespace_listing [of exampleTime exampleDown exampleStart "Err ''timeout''"]
  by (simp add: Run_def Run_init_def Let_def example_defs exampleDown_def)

text \<open>
  C3. Whenever the namespace listing succeeds, \<open>Run\<close> returns nil, whatever the per-kind
  listings and the updates answered; the last entry logged is the summary of the final
  metadata, whose \<open>errors_count\<close> is the length of the error list.
\<close>

theorem Run_returns_nil_when_namespaces_listed:
  assumes "NamespacesList (cs rc) (calls s @ [CallNow (Now tm (calls s))]) = Inr items"
  shows "fst (Run tm rc s) = None \<and>
     (\<exists>now. last (logged (snd (Run tm rc s))) = summary tm (metadata (snd (Run tm rc s))) now)"
  by (simp add: Run_list_ok [OF assms] Run_summary_simps) blast

theorem Run_returns_nil_when_namespaces_listed_witness:
  "NamespacesList (cs exampleClient)
      (calls exampleStart @ [CallNow (Now exampleTime (calls exampleStart))]) =
      Inr [''ns1'', ''ns2''] \<and>
   fst (Run exampleTime exampleClient exampleStart) = None \<and>
   Errors (metadata (snd (Run exampleTime exampleClient exampleStart))) =
      [Errorf ''deployments in ns1: '' (Err ''forbidden'')] \<and>
   map (\<lambda>(w, r). (Name w, r))
      (stsUpdates (calls (snd (Run exampleTime exampleClient exampleStart)))) =
      [(''db-a'', None), (''db-b'', Some (Err ''conflict'')), (''db-c'', None)] \<and>
   last (logged (snd (Run exampleTime exampleClient exampleStart))) =
      Entry InfoLevel ''Rollout completed''
       [(''total_restarted'', FInt 4), (''deployments'', FInt 1),
        (''statefulsets'', FInt 2), (''daemonsets'', FInt 1),
        (''namespaces_checked'', FInt 2), (''errors_count'', FInt 1),
        (''duration'', FString ''1s'')]"
  using Run_returns_nil_when_namespaces_listed [of exampleClient exampleStart exampleTime "[''ns1'', ''ns2'']"]
  by (simp add: run_defs example_defs ToLower_examples summary_def totalRestarted_def)

text \<open>
  C4. When the listing of one kind fails in a namespace, the block of \<open>Run\<close> for that
  kind appends exactly one error, \<open>fmt.Errorf\<close> of "<kind> in <namespace>: " and the
  failure, logs it, and changes nothing else; the counter of that kind is after the
  namespace what it was before it. Here \<open>s1\<close>, \<open>s2\<close> and \<open>s3\<close> are the states in which
  the three blocks start.

  The rest is processed as ever. Whether or not a block failed, the next block starts
  from the state it left, the next namespace from the state the namespace left, and the
  summary from the state the last namespace left. A block whose own listing succeeds
  does the same from every state \<open>st\<close>, whatever errors the metadata already holds: it
  submits an update for each matching workload of the listing, in order, after a
  reading of the clock, logs each, adds the number of updates that returned nil to its
  counter and records no error. Whatever fails, a run that listed the namespaces
  lists every kind in every namespace, in order.
\<close>

theorem kind_listing_failure_is_recorded_and_skipped:
  "let s1 = Run_enter ns s;
       s2 = Run_deployments tm rc ns s1;
       s3 = Run_statefulsets tm rc ns s2
   in (DeploymentsList (cs rc) (calls s1) ns = Inl e \<longrightarrow>
         Run_deployments tm rc ns s1 =
           s1\<lparr>calls := calls s1 @ [CallDeploymentsList ns],
              metadata := (metadata s1)\<lparr>Errors := Errors (metadata s1) @
                 [Errorf (''deployments in '' @ ns @ '': '') e]\<rparr>,
              logged := logged s1 @ [Entry ErrorLevel ''Failed to restart deployments''
                 [(''namespace'', FString ns), (''error'', FError e)]]\<rparr> \<and>
         DeploymentsRestarted (metadata (Run_namespace tm rc ns s)) =
           DeploymentsRestarted (metadata s)) \<and>
      (StatefulSetsList (cs rc) (calls s2) ns = Inl e \<longrightarrow>
         Run_statefulsets tm rc ns s2 =
           s2\<lparr>calls := calls s2 @ [CallStatefulSetsList ns],
              metadata := (metadata s2)\<lparr>Errors := Errors (metadata s2) @
                 [Errorf (''statefulsets in '' @ ns @ '': '') e]\<rparr>,
              logged := logged s2 @ [Entry ErrorLevel ''Failed to restart statefulsets''
                 [(''namespace'', FString ns), (''error'', FError e)]]\<rparr> \<and>
         StatefulSetsRestarted (metadata (Run_namespace tm rc ns s)) =
           StatefulSetsRestarted (metadata s)) \<and>
      (DaemonSetsList (cs rc) (calls s3) ns = Inl e \<longrightarrow>
         Run_daemonsets tm rc ns s3 =
           s3\<lparr>calls := calls s3 @ [CallDaemonSetsList ns],
              metadata := (metadata s3)\<lparr>Errors := Errors (metadata s3) @
                 [Errorf (''daemonsets in '' @ ns @ '': '') e]\<rparr>,
              logged := logged s3 @ [Entry ErrorLevel ''Failed to restart daemonsets''
                 [(''namespace'', FString ns), (''error'', FError e)]]\<rparr> \<and>
         DaemonSetsRestarted (metadata (Run_namespace tm rc ns s)) =
           DaemonSetsRestarted (metadata s)) \<and>
      Run_namespace tm rc ns s = Run_daemonsets tm rc ns s3 \<and>
      Run_namespaces tm rc (ns # rest) s =
        Run_namespaces tm rc rest (Run_namespace tm rc ns s) \<and>
      (NamespacesList (cs rc) (calls s @ [CallNow (Now tm (calls s))]) = Inr items \<longrightarrow>
         Run tm rc s =
           (None, Run_summary tm (Run_namespaces tm rc items
              (s\<lparr>calls := calls s @ [CallNow (Now tm (calls s)), CallNamespacesList],
                 metadata := newMetadata (Now tm (calls s))\<rparr>))) \<and>
         listCalls (calls (snd (Run tm rc s))) =
           listCalls (calls s) @ CallNamespacesList #
           concat (map (\<lambda>ns. [CallDeploymentsList ns, CallStatefulSetsList ns,
             CallDaemonSetsList ns]) items)) \<and>
      (DeploymentsList (cs rc) (calls st) n = Inr ws \<longrightarrow>
         (\<exists>trs. map fst trs = filter (\<lambda>w. Contains (ToLower (Name w)) (podFilter rc)) ws \<and>
            consistent tm (cs rc) (calls st) (CallDeploymentsList n # deploymentCalls tm n trs) \<and>
            Run_deployments tm rc n st =
              st\<lparr>calls := calls st @ CallDeploymentsList n # deploymentCalls tm n trs,
                 logged := logged st @ deploymentLogs n trs,
                 metadata := (metadata st)\<lparr>DeploymentsRestarted := DeploymentsRestarted (metadata st) +
                   of_nat (length (filter (\<lambda>(w, t, r). r = None) trs))\<rparr>\<rparr>)) \<and>
      (StatefulSetsList (cs rc) (calls st) n = Inr ws \<longrightarrow>
         (\<exists>trs. map fst trs = filter (\<lambda>w. Contains (ToLower (Name w)) (podFilter rc)) ws \<and>
            consistent tm (cs rc) (calls st) (CallStatefulSetsList n # stsCalls tm n trs) \<and>
            Run_statefulsets tm rc n st =
              st\<lparr>calls := calls st @ CallStatefulSetsList n # stsCalls tm n trs,
                 logged := logged st @ stsLogs n trs,
                 metadata := (metadata st)\<lparr>StatefulSetsRestarted := StatefulSetsRestarted (metadata st) +
                   of_nat (length (filter (\<lambda>(w, t, r). r = None) trs))\<rparr>\<rparr>)) \<and>
      (DaemonSetsList (cs rc) (calls st) n = Inr ws \<longrightarrow>
         (\<exists>trs. map fst trs = filter (\<lambda>w. Contains (ToLower (Name w)) (podFilter rc)) ws \<and>
            consistent tm (cs rc) (calls st) (CallDaemonSetsList n # dsCalls tm n trs) \<and>
            Run_daemonsets tm rc n st =
              st\<lparr>calls := calls st @ CallDaemonSetsList n # dsCalls tm n trs,
                 logged := logged st @ dsLogs n trs,
                 metadata := (metadata st)\<lparr>DaemonSetsRestarted := DaemonSetsRestarted (metadata st) +
                   of_nat (length (filter (\<lambda>(w, t, r). r = None) trs))\<rparr>\<rparr>))"
  unfolding Let_def
proof (intro conjI impI)
  assume f: "DeploymentsList (cs rc) (calls (Run_enter ns s)) ns = Inl e"
  show "Run_deployments tm rc ns (Run_enter ns s) =
      (Run_enter ns s)\<lparr>calls := calls (Run_enter ns s) @ [CallDeploymentsList ns],
         metadata := (metadata (Run_enter ns s))\<lparr>Errors := Errors (metadata (Run_enter ns s)) @
            [Errorf (''deployments in '' @ ns @ '': '') e]\<rparr>,
         logged := logged (Run_enter ns s) @ [Entry ErrorLevel ''Failed to restart deployments''
            [(''namespace'', FString ns), (''error'', FError e)]]\<rparr>"
    by (rule Run_deployments_list_fails [OF f])
  show "DeploymentsRestarted (metadata (Run_namespace tm rc ns s)) = DeploymentsRestarted (metadata s)"
    by (rule Run_namespace_counters_dep [OF f])
next
  assume f: "StatefulSetsList (cs rc) (calls (Run_deployments tm rc ns (Run_enter ns s))) ns = Inl e"
  show "Run_statefulsets tm rc ns (Run_deployments tm rc ns (Run_enter ns s)) =
      (Run_deployments tm rc ns (Run_enter ns s))\<lparr>calls := calls (Run_deployments tm rc ns (Run_enter ns s)) @ [CallStatefulSetsList ns],
         metadata := (metadata (Run_deployments tm rc ns (Run_enter ns s)))\<lparr>Errors := Errors (metadata (Run_deployments tm rc ns (Run_enter ns s))) @
            [Errorf (''statefulsets in '' @ ns @ '': '') e]\<rparr>,
         logged := logged (Run_deployments tm rc ns (Run_enter ns s)) @ [Entry ErrorLevel ''Failed to restart statefulsets''
            [(''namespace'', FString ns), (''error'', FError e)]]\<rparr>"
    by (rule Run_statefulsets_list_fails [OF f])
  show "StatefulSetsRestarted (metadata (Run_namespace tm rc ns s)) = StatefulSetsRestarted (metadata s)"
    by (rule Run_namespace_counters_sts [OF f])
next
  assume f: "DaemonSetsList (cs rc) (calls (Run_statefulsets tm rc ns (Run_deployments tm rc ns (Run_enter ns s)))) ns = Inl e"
  show "Run_daemonsets tm rc ns (Run_statefulsets tm rc ns (Run_deployments tm rc ns (Run_enter ns s))) =
      (Run_statefulsets tm rc ns (Run_deployments tm rc ns (Run_enter ns s)))\<lparr>calls := calls (Run_statefulsets tm rc ns (Run_deployments tm rc ns (Run_enter ns s))) @ [CallDaemonSetsList ns],
         metadata := (metadata (Run_statefulsets tm rc ns (Run_deployments tm rc ns (Run_enter ns s))))\<lparr>Errors := Errors (metadata (Run_statefulsets tm rc ns (Run_deployments tm rc ns (Run_enter ns s)))) @
            [Errorf (''daemonsets in '' @ ns @ '': '') e]\<rparr>,
         logged := logged (Run_statefulsets tm rc ns (Run_deployments tm rc ns (Run_enter ns s))) @ [Entry ErrorLevel ''Failed to restart daemonsets''
            [(''namespace'', FString ns), (''error'', FError e)]]\<rparr>"
    by (rule Run_daemonsets_list_fails [OF f])
  show "DaemonSetsRestarted (metadata (Run_namespace tm rc ns s)) = DaemonSetsRestarted (metadata s)"
    by (rule Run_namespace_counters_ds [OF f])
next
  show "Run_namespace tm rc ns s =
      Run_daemonsets tm rc ns (Run_statefulsets tm rc ns (Run_deployments tm rc ns (Run_enter ns s)))"
    by (simp add: Run_namespace_def)
next
  show "Run_namespaces tm rc (ns # rest) s =
      Run_namespaces tm rc rest (Run_namespace tm rc ns s)"
    by simp
next
  assume ok: "NamespacesList (cs rc) (calls s @ [CallNow (Now tm (calls s))]) = Inr items"
  show "Run tm rc s =
      (None, Run_summary tm (Run_namespaces tm rc items
         (s\<lparr>calls := calls s @ [CallNow (Now tm (calls s)), CallNamespacesList],
            metadata := newMetadata (Now tm (calls s))\<rparr>)))"
  proof -
    have "(Run_init tm s)\<lparr>calls := calls s @ [CallNow (Now tm (calls s)), CallNamespacesList]\<rparr> =
        s\<lparr>calls := calls s @ [CallNow (Now tm (calls s)), CallNamespacesList],
          metadata := newMetadata (Now tm (calls s))\<rparr>"
      by (cases s) (simp add: Run_init_def Let_def)
    then show ?thesis
      by (simp only: Run_list_ok [OF ok])
  qed
  show "listCalls (calls (snd (Run tm rc s))) =
      listCalls (calls s) @ CallNamespacesList #
      concat (map (\<lambda>ns. [CallDeploymentsList ns, CallStatefulSetsList ns,
        CallDaemonSetsList ns]) items)"
    by (rule Run_listCalls [OF ok])
next
  assume ok: "DeploymentsList (cs rc) (calls st) n = Inr ws"
  show "\<exists>trs. map fst trs = filter (\<lambda>w. Contains (ToLower (Name w)) (podFilter rc)) ws \<and>
      consistent tm (cs rc) (calls st) (CallDeploymentsList n # deploymentCalls tm n trs) \<and>
      Run_deployments tm rc n st =
        st\<lparr>calls := calls st @ CallDeploymentsList n # deploymentCalls tm n trs,
           logged := logged st @ deploymentLogs n trs,
           metadata := (metadata st)\<lparr>DeploymentsRestarted := DeploymentsRestarted (metadata st) +
             of_nat (length (filter (\<lambda>(w, t, r). r = None) trs))\<rparr>\<rparr>"
    by (rule Run_deployments_ok_state [OF ok])
next
  assume ok: "StatefulSetsList (cs rc) (calls st) n = Inr ws"
  show "\<exists>trs. map fst trs = filter (\<lambda>w. Contains (ToLower (Name w)) (podFilter rc)) ws \<and>
      consistent tm (cs rc) (calls st) (CallStatefulSetsList n # stsCalls tm n trs) \<and>
      Run_statefulsets tm rc n st =
        st\<lparr>calls := calls st @ CallStatefulSetsList n # stsCalls tm n trs,
           logged := logged st @ stsLogs n trs,
           metadata := (metadata st)\<lparr>StatefulSetsRestarted := StatefulSetsRestarted (metadata st) +
             of_nat (length (filter (\<lambda>(w, t, r). r = None) trs))\<rparr>\<rparr>"
    by (rule Run_statefulsets_ok_state [OF ok])
next
  assume ok: "DaemonSetsList (cs rc) (calls st) n = Inr ws"
  show "\<exists>trs. map fst trs = filter (\<lambda>w. Contains (ToLower (Name w)) (podFilter rc)) ws \<and>
      consistent tm (cs rc) (calls st) (CallDaemonSetsList n # dsCalls tm n trs) \<and>
      Run_daemonsets tm rc n st =
        st\<lparr>calls := calls st @ CallDaemonSetsList n # dsCalls tm n trs,
           logged := logged st @ dsLogs n trs,
           metadata := (metadata st)\<lparr>DaemonSetsRestarted := DaemonSetsRestarted (metadata st) +
             of_nat (length (filter (\<lambda>(w, t, r). r = None) trs))\<rparr>\<rparr>"
    by (rule Run_daemonsets_ok_state [OF ok])
qed

theorem kind_listing_failure_is_recorded_and_skipped_witness:
  "DeploymentsList (cs exampleOutage) (calls (Run_enter ''ns1'' exampleStart)) ''ns1'' =
      Inl (Err ''forbidden'') \<and>
   StatefulSetsList (cs exampleOutage)
      (calls (Run_deployments exampleTime exampleOutage ''ns1'' (Run_enter ''ns1'' exampleStart)))
      ''ns1'' = Inl (Err ''forbidden'') \<and>
   DaemonSetsList (cs exampleOutage)
      (calls (Run_statefulsets exampleTime exampleOutage ''ns1''
         (Run_deployments exampleTime exampleOutage ''ns1'' (Run_enter ''ns1'' exampleStart))))
      ''ns1'' = Inl (Err ''forbidden'') \<and>
   NamespacesList (cs exampleOutage)
      (calls exampleStart @ [CallNow (Now exampleTime (calls exampleStart))]) =
      Inr [''ns1'', ''ns2''] \<and>
   metadata (Run_namespace exampleTime exampleOutage ''ns1'' exampleStart) =
     \<lparr>StartTime = 0, DeploymentsRestarted = 0, StatefulSetsRestarted = 0,
      DaemonSetsRestarted = 0, NamespacesProcessed = 1,
      Errors = [Errorf ''deployments in ns1: '' (Err ''forbidden''),
                Errorf ''statefulsets in ns1: '' (Err ''forbidden''),
                Errorf ''daemonsets in ns1: '' (Err ''forbidden'')]\<rparr> \<and>
   metadata (snd (Run exampleTime exampleOutage exampleStart)) =
     \<lparr>StartTime = 0, DeploymentsRestarted = 1, StatefulSetsRestarted = 0,
      DaemonSetsRestarted = 1, NamespacesProcessed = 2,
      Errors = [Errorf ''deployments in ns1: '' (Err ''forbidden''),
                Errorf ''statefulsets in ns1: '' (Err ''forbidden''),
                Errorf ''daemonsets in ns1: '' (Err ''forbidden'')]\<rparr> \<and>
   listCalls (calls (snd (Run exampleTime exampleOutage exampleStart))) =
     [CallNamespacesList,
      CallDeploymentsList ''ns1'', CallStatefulSetsList ''ns1'', CallDaemonSetsList ''ns1'',
      CallDeploymentsList ''ns2'', CallStatefulSetsList ''ns2'', CallDaemonSetsList ''ns2''] \<and>
   DeploymentsList (cs exampleClient) (calls (Run_enter ''ns1'' exampleStart)) ''ns1'' =
      Inl (Err ''forbidden'') \<and>
   StatefulSetsList (cs exampleClient)
      (calls (Run_deployments exampleTime exampleClient ''ns1'' (Run_enter ''ns1'' exampleStart)))
      ''ns1'' =
      Inr [exampleWorkload ''db-a'', exampleWorkload ''db-b'', exampleWorkload ''db-c''] \<and>
   Errors (metadata
      (Run_deployments exampleTime exampleClient ''ns1'' (Run_enter ''ns1'' exampleStart))) =
      [Errorf ''deployments in ns1: '' (Err ''forbidden'')] \<and>
   map (\<lambda>(w, r). (Name w, r)) (stsUpdates (calls
      (Run_statefulsets exampleTime exampleClient ''ns1''
         (Run_deployments exampleTime exampleClient ''ns1'' (Run_enter ''ns1'' exampleStart))))) =
      [(''db-a'', None), (''db-b'', Some (Err ''conflict'')), (''db-c'', None)] \<and>
   metadata (Run_statefulsets exampleTime exampleClient ''ns1''
      (Run_deployments exampleTime exampleClient ''ns1'' (Run_enter ''ns1'' exampleStart))) =
     \<lparr>StartTime = 0, DeploymentsRestarted = 0, StatefulSetsRestarted = 2,
      DaemonSetsRestarted = 0, NamespacesProcessed = 1,
      Errors = [Errorf ''deployments in ns1: '' (Err ''forbidden'')]\<rparr> \<and>
   DeploymentsList (cs exampleOutage)
      (calls (Run_enter ''ns2'' (Run_namespace exampleTime exampleOutage ''ns1'' exampleStart)))
      ''ns2'' = Inr [exampleWorkload ''db-primary'', exampleWorkload ''web''] \<and>
   metadata (Run_deployments exampleTime exampleOutage ''ns2''
      (Run_enter ''ns2'' (Run_namespace exampleTime exampleOutage ''ns1'' exampleStart))) =
     \<lparr>StartTime = 0, DeploymentsRestarted = 1, StatefulSetsRestarted = 0,
      DaemonSetsRestarted = 0, NamespacesProcessed = 2,
      Errors = [Errorf ''deployments in ns1: '' (Err ''forbidden''),
                Errorf ''statefulsets in ns1: '' (Err ''forbidden''),
                Errorf ''daemonsets in ns1: '' (Err ''forbidden'')]\<rparr> \<and>
   DaemonSetsList (cs exampleOutage)
      (calls (Run_enter ''ns2'' (Run_namespace exampleTime exampleOutage ''ns1'' exampleStart)))
      ''ns2'' =
      Inr [\<lparr>Name = ''db-agent'', Annotations = Some [''team'' \<mapsto> ''data''], Other = ()\<rparr>] \<and>
   metadata (Run_daemonsets exampleTime exampleOutage ''ns2''
      (Run_enter ''ns2'' (Run_namespace exampleTime exampleOutage ''ns1'' exampleStart))) =
     \<lparr>StartTime = 0, DeploymentsRestarted = 0, StatefulSetsRestarted = 0,
      DaemonSetsRestarted = 1, NamespacesProcessed = 2,
      Errors = [Errorf ''deployments in ns1: '' (Err ''forbidden''),
                Errorf ''statefulsets in ns1: '' (Err ''forbidden''),
                Errorf ''daemonsets in ns1: '' (Err ''forbidden'')]\<rparr>"
  using kind_listing_failure_is_recorded_and_skipped
    [where ns = "''ns1''" and s = exampleStart and tm = exampleTime and rc = exampleOutage
       and e = "Err ''forbidden''" and items = "[''ns1'', ''ns2'']" and rest = "[''ns2'']"
       and st = "Run_enter ''ns2'' (Run_namespace exampleTime exampleOutage ''ns1'' exampleStart)"
       and n = "''ns2''"
       and ws = "[exampleWorkload ''db-primary'', exampleWorkload ''web'']"]
    kind_listing_failure_is_recorded_and_skipped
    [where ns = "''ns1''" and s = exampleStart and tm = exampleTime and rc = exampleOutage
       and e = "Err ''forbidden''" and items = "[''ns1'', ''ns2'']" and rest = "[''ns2'']"
       and st = "Run_enter ''ns2'' (Run_namespace exampleTime exampleOutage ''ns1'' exampleStart)"
       and n = "''ns2''"
       and ws = "[\<lparr>Name = ''db-agent'', Annotations = Some [''team'' \<mapsto> ''data''],
          Other = ()\<rparr>]"]
    kind_listing_failure_is_recorded_and_skipped
    [where ns = "''ns1''" and s = exampleStart and tm = exampleTime and rc = exampleClient
       and e = "Err ''forbidden''" and items = "[''ns1'', ''ns2'']" and rest = "[''ns2'']"
       and st = "Run_deployments exampleTime exampleClient ''ns1''
          (Run_enter ''ns1'' exampleStart)"
       and n = "''ns1''"
       and ws = "[exampleWorkload ''db-a'', exampleWorkload ''db-b'', exampleWorkload ''db-c'']"]
  by (simp add: run_defs example_defs exampleOutage_def ToLower_examples listCalls_def)

text \<open>
  C5. When a per-kind procedure has listed its workloads, the updates it submits are
  those of the matching workloads, all of them and in listing order, whatever the
  earlier updates returned: a failed update ends nothing. The count returned is the
  number of updates that returned nil, so a failed update is not counted and the later
  ones that succeed are; the error returned is nil; the metadata, and so the run-level
  error list, is untouched, and the block of \<open>Run\<close> adds the count to the counter of the
  kind and no error. Here \<open>new\<close> is the stretch of trace the procedure adds, and each
  result kept in it is what the update returned.
\<close>

theorem failed_update_is_skipped_not_recorded:
  "(DeploymentsList (cs rc) (calls s) ns = Inr items \<longrightarrow>
      (let new = drop (length (calls s)) (calls (snd (restartDeployments tm rc ns s)))
       in consistent tm (cs rc) (calls s) new \<and>
          map (Name \<circ> fst) (deploymentUpdates new) =
            map Name (filter (\<lambda>w. Contains (ToLower (Name w)) (podFilter rc)) items) \<and>
          fst (restartDeployments tm rc ns s) =
            (of_nat (length (succeeded (deploymentUpdates new))), None) \<and>
          metadata (snd (restartDeployments tm rc ns s)) = metadata s \<and>
          Errors (metadata (Run_deployments tm rc ns s)) = Errors (metadata s) \<and>
          DeploymentsRestarted (metadata (Run_deployments tm rc ns s)) =
            DeploymentsRestarted (metadata s) +
            of_nat (length (succeeded (deploymentUpdates new))))) \<and>
   (StatefulSetsList (cs rc) (calls s) ns = Inr items \<longrightarrow>
      (let new = drop (length (calls s)) (calls (snd (restartStatefulSets tm rc ns s)))
       in consistent tm (cs rc) (calls s) new \<and>
          map (Name \<circ> fst) (stsUpdates new) =
            map Name (filter (\<lambda>w. Contains (ToLower (Name w)) (podFilter rc)) items) \<and>
          fst (restartStatefulSets tm rc ns s) =
            (of_nat (length (succeeded (stsUpdates new))), None) \<and>
          metadata (snd (restartStatefulSets tm rc ns s)) = metadata s \<and>
          Errors (metadata (Run_statefulsets tm rc ns s)) = Errors (metadata s) \<and>
          StatefulSetsRestarted (metadata (Run_statefulsets tm rc ns s)) =
            StatefulSetsRestarted (metadata s) +
            of_nat (length (succeeded (stsUpdates new))))) \<and>
   (DaemonSetsList (cs rc) (calls s) ns = Inr items \<longrightarrow>
      (let new = drop (length (calls s)) (calls (snd (restartDaemonSets tm rc ns s)))
       in consistent tm (cs rc) (calls s) new \<and>
          map (Name \<circ> fst) (dsUpdates new) =
            map Name (filter (\<lambda>w. Contains (ToLower (Name w)) (podFilter rc)) items) \<and>
          fst (restartDaemonSets tm rc ns s) =
            (of_nat (length (succeeded (dsUpdates new))), None) \<and>
          metadata (snd (restartDaemonSets tm rc ns s)) = metadata s \<and>
          Errors (metadata (Run_daemonsets tm rc ns s)) = Errors (metadata s) \<and>
          DaemonSetsRestarted (metadata (Run_daemonsets tm rc ns s)) =
            DaemonSetsRestarted (metadata s) +
            of_nat (length (succeeded (dsUpdates new)))))"
  unfolding Let_def
proof (intro conjI impI)
  assume ok: "DeploymentsList (cs rc) (calls s) ns = Inr items"
  note u = restartDeployments_updates [OF ok, of tm]
  show "consistent tm (cs rc) (calls s)
      (drop (length (calls s)) (calls (snd (restartDeployments tm rc ns s))))"
    by (rule restartDeployments_consistent [OF ok])
  show "map (Name \<circ> fst) (deploymentUpdates
        (drop (length (calls s)) (calls (snd (restartDeployments tm rc ns s))))) =
      map Name (filter (\<lambda>w. Contains (ToLower (Name w)) (podFilter rc)) items)"
    by (rule u(1))
  show "fst (restartDeployments tm rc ns s) =
      (of_nat (length (succeeded (deploymentUpdates
         (drop (length (calls s)) (calls (snd (restartDeployments tm rc ns s))))))), None)"
    by (rule u(2))
  show "metadata (snd (restartDeployments tm rc ns s)) = metadata s"
    by (rule u(3))
  show "Errors (metadata (Run_deployments tm rc ns s)) = Errors (metadata s)"
    by (simp add: Run_deployments_list_ok [OF ok])
  show "DeploymentsRestarted (metadata (Run_deployments tm rc ns s)) =
      DeploymentsRestarted (metadata s) + of_nat (length (succeeded (deploymentUpdates
         (drop (length (calls s)) (calls (snd (restartDeployments tm rc ns s)))))))"
    using u(2) by (simp add: Run_deployments_list_ok [OF ok])
next
  assume ok: "StatefulSetsList (cs rc) (calls s) ns = Inr items"
  note u = restartStatefulSets_updates [OF ok, of tm]
  show "consistent tm (cs rc) (calls s)
      (drop (length (calls s)) (calls (snd (restartStatefulSets tm rc ns s))))"
    by (rule restartStatefulSets_consistent [OF ok])
  show "map (Name \<circ> fst) (stsUpdates
        (drop (length (calls s)) (calls (snd (restartStatefulSets tm rc ns s))))) =
      map Name (filter (\<lambda>w. Contains (ToLower (Name w)) (podFilter rc)) items)"
    by (rule u(1))
  show "fst (restartStatefulSets tm rc ns s) =
      (of_nat (length (succeeded (stsUpdates
         (drop (length (calls s)) (calls (snd (restartStatefulSets tm rc ns s))))))), None)"
    by (rule u(2))
  show "metadata (snd (restartStatefulSets tm rc ns s)) = metadata s"
    by (rule u(3))
  show "Errors (metadata (Run_statefulsets tm rc ns s)) = Errors (metadata s)"
    by (simp add: Run_statefulsets_list_ok [OF ok])
  show "StatefulSetsRestarted (metadata (Run_statefulsets tm rc ns s)) =
      StatefulSetsRestarted (metadata s) + of_nat (length (succeeded (stsUpdates
         (drop (length (calls s)) (calls (snd (restartStatefulSets tm rc ns s)))))))"
    using u(2) by (simp add: Run_statefulsets_list_ok [OF ok])
next
  assume ok: "DaemonSetsList (cs rc) (calls s) ns = Inr items"
  note u = restartDaemonSets_updates [OF ok, of tm]
  show "consistent tm (cs rc) (calls s)
      (drop (length (calls s)) (calls (snd (restartDaemonSets tm rc ns s))))"
    by (rule restartDaemonSets_consistent [OF ok])
  show "map (Name \<circ> fst) (dsUpdates
        (drop (length (calls s)) (calls (snd (restartDaemonSets tm rc ns s))))) =
      map Name (filter (\<lambda>w. Contains (ToLower (Name w)) (podFilter rc)) items)"
    by (rule u(1))
  show "fst (restartDaemonSets tm rc ns s) =
      (of_nat (length (succeeded (dsUpdates
         (drop (length (calls s)) (calls (snd (restartDaemonSets tm rc ns s))))))), None)"
    by (rule u(2))
  show "metadata (snd (restartDaemonSets tm rc ns s)) = metadata s"
    by (rule u(3))
  show "Errors (metadata (Run_daemonsets tm rc ns s)) = Errors (metadata s)"
    by (simp add: Run_daemonsets_list_ok [OF ok])
  show "DaemonSetsRestarted (metadata (Run_daemonsets tm rc ns s)) =
      DaemonSetsRestarted (metadata s) + of_nat (length (succeeded (dsUpdates
         (drop (length (calls s)) (calls (snd (restartDaemonSets tm rc ns s)))))))"
    using u(2) by (simp add: Run_daemonsets_list_ok [OF ok])
qed

theorem failed_update_is_skipped_not_recorded_witness:
  "DeploymentsList (cs exampleClient) (calls exampleStart) ''ns2'' =
      Inr [exampleWorkload ''db-primary'', exampleWorkload ''web''] \<and>
   fst (restartDeployments exampleTime exampleClient ''ns2'' exampleStart) = (1, None) \<and>
   StatefulSetsList (cs exampleClient) (calls exampleStart) ''ns1'' =
      Inr [exampleWorkload ''db-a'', exampleWorkload ''db-b'', exampleWorkload ''db-c''] \<and>
   map (\<lambda>(w, r). (Name w, r))
      (stsUpdates (calls (snd (restartStatefulSets exampleTime exampleClient ''ns1'' exampleStart)))) =
      [(''db-a'', None), (''db-b'', Some (Err ''conflict'')), (''db-c'', None)] \<and>
   fst (restartStatefulSets exampleTime exampleClient ''ns1'' exampleStart) = (2, None) \<and>
   metadata (Run_statefulsets exampleTime exampleClient ''ns1'' exampleStart) =
      \<lparr>StartTime = 0, DeploymentsRestarted = 0, StatefulSetsRestarted = 2,
       DaemonSetsRestarted = 0, NamespacesProcessed = 0, Errors = []\<rparr> \<and>
   DaemonSetsList (cs exampleClient) (calls exampleStart) ''ns1'' = Inr [] \<and>
   fst (restartDaemonSets exampleTime exampleClient ''ns1'' exampleStart) = (0, None)"
  using failed_update_is_skipped_not_recorded [of exampleClient exampleStart "''ns2''"
      "[exampleWorkload ''db-primary'', exampleWorkload ''web'']" exampleTime]
    failed_update_is_skipped_not_recorded [of exampleClient exampleStart "''ns1''"
      "[exampleWorkload ''db-a'', exampleWorkload ''db-b'', exampleWorkload ''db-c'']" exampleTime]
    failed_update_is_skipped_not_recorded [of exampleClient exampleStart "''ns1''" "[]" exampleTime]
  by (simp add: run_defs example_defs ToLower_examples)

text \<open>
  C6. The empty filter is contained in every lowercased name, and with it each per-kind
  procedure submits an update for every workload of its listing, in listing order.
\<close>

theorem empty_filter_selects_every_workload:
  assumes "podFilter rc = []"
  shows "Contains (ToLower n) (podFilter rc) \<and>
   (DeploymentsList (cs rc) (calls s) ns = Inr items \<longrightarrow>
      map (Name \<circ> fst) (deploymentUpdates
        (drop (length (calls s)) (calls (snd (restartDeployments tm rc ns s))))) = map Name items) \<and>
   (StatefulSetsList (cs rc) (calls s) ns = Inr items \<longrightarrow>
      map (Name \<circ> fst) (stsUpdates
        (drop (length (calls s)) (calls (snd (restartStatefulSets tm rc ns s))))) = map Name items) \<and>
   (DaemonSetsList (cs rc) (calls s) ns = Inr items \<longrightarrow>
      map (Name \<circ> fst) (dsUpdates
        (drop (length (calls s)) (calls (snd (restartDaemonSets tm rc ns s))))) = map Name items)"
proof (intro conjI impI)
  show "Contains (ToLower n) (podFilter rc)"
    by (simp add: assms Contains_empty)
next
  assume ok: "DeploymentsList (cs rc) (calls s) ns = Inr items"
  show "map (Name \<circ> fst) (deploymentUpdates
        (drop (length (calls s)) (calls (snd (restartDeployments tm rc ns s))))) = map Name items"
    using restartDeployments_updates(1) [OF ok, of tm] by (simp add: assms Contains_empty)
next
  assume ok: "StatefulSetsList (cs rc) (calls s) ns = Inr items"
  show "map (Name \<circ> fst) (stsUpdates
        (drop (length (calls s)) (calls (snd (restartStatefulSets tm rc ns s))))) = map Name items"
    using restartStatefulSets_updates(1) [OF ok, of tm] by (simp add: assms Contains_empty)
next
  assume ok: "DaemonSetsList (cs rc) (calls s) ns = Inr items"
  show "map (Name \<circ> fst) (dsUpdates
        (drop (length (calls s)) (calls (snd (restartDaemonSets tm rc ns s))))) = map Name items"
    using restartDaemonSets_updates(1) [OF ok, of tm] by (simp add: assms Contains_empty)
qed

theorem empty_filter_selects_every_workload_witness:
  "podFilter (exampleClient\<lparr>podFilter := []\<rparr>) = [] \<and>
   Contains (ToLower ''web'') (podFilter (exampleClient\<lparr>podFilter := []\<rparr>)) \<and>
   DeploymentsList (cs (exampleClient\<lparr>podFilter := []\<rparr>)) (calls exampleStart) ''ns2'' =
      Inr [exampleWorkload ''db-primary'', exampleWorkload ''web''] \<and>
   map (Name \<circ> fst) (deploymentUpdates (calls (snd
      (restartDeployments exampleTime (exampleClient\<lparr>podFilter := []\<rparr>) ''ns2'' exampleStart)))) =
      [''db-primary'', ''web''] \<and>
   StatefulSetsList (cs (exampleClient\<lparr>podFilter := []\<rparr>)) (calls exampleStart) ''ns1'' =
      Inr [exampleWorkload ''db-a'', exampleWorkload ''db-b'', exampleWorkload ''db-c''] \<and>
   map (Name \<circ> fst) (stsUpdates (calls (snd
      (restartStatefulSets exampleTime (exampleClient\<lparr>podFilter := []\<rparr>) ''ns1'' exampleStart)))) =
      [''db-a'', ''db-b'', ''db-c''] \<and>
   DaemonSetsList (cs (exampleClient\<lparr>podFilter := []\<rparr>)) (calls exampleStart) ''ns2'' =
      Inr [\<lparr>Name = ''db-agent'', Annotations = Some [''team'' \<mapsto> ''data''], Other = ()\<rparr>] \<and>
   map (Name \<circ> fst) (dsUpdates (calls (snd
      (restartDaemonSets exampleTime (exampleClient\<lparr>podFilter := []\<rparr>) ''ns2'' exampleStart)))) =
      [''db-agent'']"
  using empty_filter_selects_every_workload [of "exampleClient\<lparr>podFilter := []\<rparr>" "''web''"
      exampleStart "''ns2''" "[exampleWorkload ''db-primary'', exampleWorkload ''web'']" exampleTime]
    empty_filter_selects_every_workload [of "exampleClient\<lparr>podFilter := []\<rparr>" "''web''"
      exampleStart "''ns1''"
      "[exampleWorkload ''db-a'', exampleWorkload ''db-b'', exampleWorkload ''db-c'']" exampleTime]
    empty_filter_selects_every_workload [of "exampleClient\<lparr>podFilter := []\<rparr>" "''web''"
      exampleStart "''ns2''"
      "[\<lparr>Name = ''db-agent'', Annotations = Some [''team'' \<mapsto> ''data''], Other = ()\<rparr>]"
      exampleTime]
  by (simp add: run_defs example_defs ToLower_examples)

text \<open>
  C7. \<open>totalRestarted\<close> is the sum, in Go's int, of the three counters of the metadata it
  is given; the metadata has no field for it. At every point of a run that sum has not
  wrapped around, as long as the run has made fewer than \<open>2 ^ 63\<close> calls: the integer
  read from the total is the sum of the integers read from the three counters. The
  summary of a run reports the sum of the three counters it reports, and a run over no
  namespace has total 0.
\<close>

theorem totalRestarted_is_the_sum:
  "totalRestarted rm =
     DeploymentsRestarted rm + StatefulSetsRestarted rm + DaemonSetsRestarted rm \<and>
   list_all (\<lambda>st.
       totalRestarted (metadata st) =
         DeploymentsRestarted (metadata st) + StatefulSetsRestarted (metadata st) +
         DaemonSetsRestarted (metadata st) \<and>
       (length (calls st) < 2 ^ 63 \<longrightarrow>
          sint (totalRestarted (metadata st)) =
            sint (DeploymentsRestarted (metadata st)) +
            sint (StatefulSetsRestarted (metadata st)) +
            sint (DaemonSetsRestarted (metadata st))))
     (RunPoints tm rc s) \<and>
   (NamespacesList (cs rc) (calls s @ [CallNow (Now tm (calls s))]) = Inr items \<longrightarrow>
      (let m = metadata (snd (Run tm rc s))
       in \<exists>now. last (logged (snd (Run tm rc s))) =
            Entry InfoLevel ''Rollout completed''
              [(''total_restarted'', FInt (DeploymentsRestarted m + StatefulSetsRestarted m +
                  DaemonSetsRestarted m)),
               (''deployments'', FInt (DeploymentsRestarted m)),
               (''statefulsets'', FInt (StatefulSetsRestarted m)),
               (''daemonsets'', FInt (DaemonSetsRestarted m)),
               (''namespaces_checked'', FInt (NamespacesProcessed m)),
               (''errors_count'', FInt (of_nat (length (Errors m)))),
               (''duration'', FString (DurationString tm (now - StartTime m)))])) \<and>
   (NamespacesList (cs rc) (calls s @ [CallNow (Now tm (calls s))]) = Inr [] \<longrightarrow>
      totalRestarted (metadata (snd (Run tm rc s))) = 0)"
proof (intro conjI impI)
  show "totalRestarted rm =
     DeploymentsRestarted rm + StatefulSetsRestarted rm + DaemonSetsRestarted rm"
    by (simp add: totalRestarted_def)
next
  have "list_all tallied (RunPoints tm rc s)" by (rule tallied_RunPoints)
  then show "list_all (\<lambda>st.
       totalRestarted (metadata st) =
         DeploymentsRestarted (metadata st) + StatefulSetsRestarted (metadata st) +
         DaemonSetsRestarted (metadata st) \<and>
       (length (calls st) < 2 ^ 63 \<longrightarrow>
          sint (totalRestarted (metadata st)) =
            sint (DeploymentsRestarted (metadata st)) +
            sint (StatefulSetsRestarted (metadata st)) +
            sint (DaemonSetsRestarted (metadata st))))
     (RunPoints tm rc s)"
    by (simp add: list_all_iff totalRestarted_def [symmetric] tallied_sum)
next
  assume ok: "NamespacesList (cs rc) (calls s @ [CallNow (Now tm (calls s))]) = Inr items"
  show "let m = metadata (snd (Run tm rc s))
       in \<exists>now. last (logged (snd (Run tm rc s))) =
            Entry InfoLevel ''Rollout completed''
              [(''total_restarted'', FInt (DeploymentsRestarted m + StatefulSetsRestarted m +
                  DaemonSetsRestarted m)),
               (''deployments'', FInt (DeploymentsRestarted m)),
               (''statefulsets'', FInt (StatefulSetsRestarted m)),
               (''daemonsets'', FInt (DaemonSetsRestarted m)),
               (''namespaces_checked'', FInt (NamespacesProcessed m)),
               (''errors_count'', FInt (of_nat (length (Errors m)))),
               (''duration'', FString (DurationString tm (now - StartTime m)))]"
    by (simp add: Run_list_ok [OF ok] Run_summary_simps summary_def totalRestarted_def
        duration_def Let_def) blast
next
  assume ok: "NamespacesList (cs rc) (calls s @ [CallNow (Now tm (calls s))]) = Inr []"
  show "totalRestarted (metadata (snd (Run tm rc s))) = 0"
    by (simp add: Run_list_ok [OF ok] Run_summary_simps Run_init_simps newMetadata_def
        totalRestarted_def)
qed

theorem totalRestarted_is_the_sum_witness:
  "list_all (\<lambda>st. length (calls st) < 2 ^ 63) (RunPoints exampleTime exampleClient exampleStart) \<and>
   NamespacesList (cs exampleClient)
      (calls exampleStart @ [CallNow (Now exampleTime (calls exampleStart))]) =
      Inr [''ns1'', ''ns2''] \<and>
   map (\<lambda>st. (sint (totalRestarted (metadata st)),
               sint (DeploymentsRestarted (metadata st)),
               sint (StatefulSetsRestarted (metadata st)),
               sint (DaemonSetsRestarted (metadata st))))
     (RunPoints exampleTime exampleClient exampleStart) =
     [(0, 0, 0, 0), (0, 0, 0, 0), (0, 0, 0, 0), (0, 0, 0, 0), (0, 0, 0, 0), (2, 0, 2, 0),
      (2, 0, 2, 0), (2, 0, 2, 0), (3, 1, 2, 0), (3, 1, 2, 0), (4, 1, 2, 1), (4, 1, 2, 1)] \<and>
   last (logged (snd (Run exampleTime exampleClient exampleStart))) =
      Entry InfoLevel ''Rollout completed''
       [(''total_restarted'', FInt 4), (''deployments'', FInt 1),
        (''statefulsets'', FInt 2), (''daemonsets'', FInt 1),
        (''namespaces_checked'', FInt 2), (''errors_count'', FInt 1),
        (''duration'', FString ''1s'')] \<and>
   NamespacesList (cs exampleEmpty)
      (calls exampleStart @ [CallNow (Now exampleTime (calls exampleStart))]) = Inr [] \<and>
   totalRestarted (metadata (snd (Run exampleTime exampleEmpty exampleStart))) = 0"
  using totalRestarted_is_the_sum [of "metadata exampleStart" exampleTime exampleClient
      exampleStart "[''ns1'', ''ns2'']"]
    totalRestarted_is_the_sum [of "metadata exampleStart" exampleTime exampleEmpty
      exampleStart "[]"]
  by (simp add: RunPoints_def run_defs example_defs exampleEmpty_def ToLower_examples
      summary_def totalRestarted_def)

text \<open>
  C8. When a per-kind procedure has listed its workloads, its calls are the listing and
  then, for each matching workload in turn, one reading \<open>t\<close> of the clock and one update
  of the workload as listed but for its pod-template annotations: these are the
  annotations it had (none if the map was nil) with the key
  \<open>kubectl.kubernetes.io/restartedAt\<close> set to \<open>t\<close> formatted by the layout
  \<open>time.RFC3339\<close>. The name and every other field are submitted as listed. Each \<open>t\<close>
  is what the clock returned at that point.
\<close>

theorem restart_only_sets_the_annotation:
  "(DeploymentsList (cs rc) (calls s) ns = Inr items \<longrightarrow>
      (\<exists>trs. map fst trs = filter (\<lambda>w. Contains (ToLower (Name w)) (podFilter rc)) items \<and>
         calls (snd (restartDeployments tm rc ns s)) =
           calls s @ CallDeploymentsList ns # concat (map (\<lambda>(w, t, r).
             [CallNow t,
              CallDeploymentsUpdate ns
                (w\<lparr>Annotations :=
                   Some ((case Annotations w of None \<Rightarrow> Map.empty | Some m \<Rightarrow> m)
                     (restartedAt \<mapsto> Format tm t RFC3339))\<rparr>) r]) trs)) \<and>
      consistent tm (cs rc) (calls s)
        (drop (length (calls s)) (calls (snd (restartDeployments tm rc ns s))))) \<and>
   (StatefulSetsList (cs rc) (calls s) ns = Inr items \<longrightarrow>
      (\<exists>trs. map fst trs = filter (\<lambda>w. Contains (ToLower (Name w)) (podFilter rc)) items \<and>
         calls (snd (restartStatefulSets tm rc ns s)) =
           calls s @ CallStatefulSetsList ns # concat (map (\<lambda>(w, t, r).
             [CallNow t,
              CallStatefulSetsUpdate ns
                (w\<lparr>Annotations :=
                   Some ((case Annotations w of None \<Rightarrow> Map.empty | Some m \<Rightarrow> m)
                     (restartedAt \<mapsto> Format tm t RFC3339))\<rparr>) r]) trs)) \<and>
      consistent tm (cs rc) (calls s)
        (drop (length (calls s)) (calls (snd (restartStatefulSets tm rc ns s))))) \<and>
   (DaemonSetsList (cs rc) (calls s) ns = Inr items \<longrightarrow>
      (\<exists>trs. map fst trs = filter (\<lambda>w. Contains (ToLower (Name w)) (podFilter rc)) items \<and>
         calls (snd (restartDaemonSets tm rc ns s)) =
           calls s @ CallDaemonSetsList ns # concat (map (\<lambda>(w, t, r).
             [CallNow t,
              CallDaemonSetsUpdate ns
                (w\<lparr>Annotations :=
                   Some ((case Annotations w of None \<Rightarrow> Map.empty | Some m \<Rightarrow> m)
                     (restartedAt \<mapsto> Format tm t RFC3339))\<rparr>) r]) trs)) \<and>
      consistent tm (cs rc) (calls s)
        (drop (length (calls s)) (calls (snd (restartDaemonSets tm rc ns s)))))"
proof (intro conjI impI)

  assume ok: "DeploymentsList (cs rc) (calls s) ns = Inr items"
  from restartDeployments_list_ok [OF ok, where tm = tm] obtain trs where
    t1: "map fst trs = filter (\<lambda>w. Contains (ToLower (Name w)) (podFilter rc)) items"
    and t2: "calls (snd (restartDeployments tm rc ns s)) =
        calls s @ CallDeploymentsList ns # deploymentCalls tm ns trs"
    by blast
  show "\<exists>trs. map fst trs = filter (\<lambda>w. Contains (ToLower (Name w)) (podFilter rc)) items \<and>
         calls (snd (restartDeployments tm rc ns s)) =
           calls s @ CallDeploymentsList ns # concat (map (\<lambda>(w, t, r).
             [CallNow t,
              CallDeploymentsUpdate ns
                (w\<lparr>Annotations :=
                   Some ((case Annotations w of None \<Rightarrow> Map.empty | Some m \<Rightarrow> m)
                     (restartedAt \<mapsto> Format tm t RFC3339))\<rparr>) r]) trs)"
    using t1 t2 unfolding deploymentCalls_def by blast
  show "consistent tm (cs rc) (calls s)
        (drop (length (calls s)) (calls (snd (restartDeployments tm rc ns s))))"
    by (rule restartDeployments_consistent [OF ok])
next
  assume ok: "StatefulSetsList (cs rc) (calls s) ns = Inr items"
  from restartStatefulSets_list_ok [OF ok, where tm = tm] obtain trs where
    t1: "map fst trs = filter (\<lambda>w. Contains (ToLower (Name w)) (podFilter rc)) items"
    and t2: "calls (snd (restartStatefulSets tm rc ns s)) =
        calls s @ CallStatefulSetsList ns # stsCalls tm ns trs"
    by blast
  show "\<exists>trs. map fst trs = filter (\<lambda>w. Contains (ToLower (Name w)) (podFilter rc)) items \<and>
         calls (snd (restartStatefulSets tm rc ns s)) =
           calls s @ CallStatefulSetsList ns # concat (map (\<lambda>(w, t, r).
             [CallNow t,
              CallStatefulSetsUpdate ns
                (w\<lparr>Annotations :=
                   Some ((case Annotations w of None \<Rightarrow> Map.empty | Some m \<Rightarrow> m)
                     (restartedAt \<mapsto> Format tm t RFC3339))\<rparr>) r]) trs)"
    using t1 t2 unfolding stsCalls_def by blast
  show "consistent tm (cs rc) (calls s)
        (drop (length (calls s)) (calls (snd (restartStatefulSets tm rc ns s))))"
    by (rule restartStatefulSets_consistent [OF ok])
next
  assume ok: "DaemonSetsList (cs rc) (calls s) ns = Inr items"
  from restartDaemonSets_list_ok [OF ok, where tm = tm] obtain trs where
    t1: "map fst trs = filter (\<lambda>w. Contains (ToLower (Name w)) (podFilter rc)) items"
    and t2: "calls (snd (restartDaemonSets tm rc ns s)) =
        calls s @ CallDaemonSetsList ns # dsCalls tm ns trs"
    by blast
  show "\<exists>trs. map fst trs = filter (\<lambda>w. Contains (ToLower (Name w)) (podFilter rc)) items \<and>
         calls (snd (restartDaemonSets tm rc ns s)) =
           calls s @ CallDaemonSetsList ns # concat (map (\<lambda>(w, t, r).
             [CallNow t,
              CallDaemonSetsUpdate ns
                (w\<lparr>Annotations :=
                   Some ((case Annotations w of None \<Rightarrow> Map.empty | Some m \<Rightarrow> m)
                     (restartedAt \<mapsto> Format tm t RFC3339))\<rparr>) r]) trs)"
    using t1 t2 unfolding dsCalls_def by blast
  show "consistent tm (cs rc) (calls s)
        (drop (length (calls s)) (calls (snd (restartDaemonSets tm rc ns s))))"
    by (rule restartDaemonSets_consistent [OF ok])
qed


theorem restart_only_sets_the_annotation_witness:
  "DeploymentsList (cs exampleClient) (calls exampleStart) ''ns2'' =
      Inr [exampleWorkload ''db-primary'', exampleWorkload ''web''] \<and>
   calls (snd (restartDeployments exampleTime exampleClient ''ns2'' exampleStart)) =
     [CallDeploymentsList ''ns2'', CallNow 1,
      CallDeploymentsUpdate ''ns2''
        \<lparr>Name = ''db-primary'',
         Annotations = Some [restartedAt \<mapsto> ''2024-05-01T10:00:00Z''],
         Other = ()\<rparr> None] \<and>
   StatefulSetsList (cs exampleClient) (calls exampleStart) ''ns2'' = Inr [] \<and>
   calls (snd (restartStatefulSets exampleTime exampleClient ''ns2'' exampleStart)) =
     [CallStatefulSetsList ''ns2''] \<and>
   DaemonSetsList (cs exampleClient) (calls exampleStart) ''ns2'' =
      Inr [\<lparr>Name = ''db-agent'', Annotations = Some [''team'' \<mapsto> ''data''], Other = ()\<rparr>] \<and>
   calls (snd (restartDaemonSets exampleTime exampleClient ''ns2'' exampleStart)) =
     [CallDaemonSetsList ''ns2'', CallNow 1,
      CallDaemonSetsUpdate ''ns2''
        \<lparr>Name = ''db-agent'',
         Annotations = Some [''team'' \<mapsto> ''data'', restartedAt \<mapsto> ''2024-05-01T10:00:00Z''],
         Other = ()\<rparr> None]"
  using restart_only_sets_the_annotation [of exampleClient exampleStart "''ns2''"
      "[exampleWorkload ''db-primary'', exampleWorkload ''web'']" exampleTime]
    restart_only_sets_the_annotation [of exampleClient exampleStart "''ns2''" "[]" exampleTime]
    restart_only_sets_the_annotation [of exampleClient exampleStart "''ns2''"
      "[\<lparr>Name = ''db-agent'', Annotations = Some [''team'' \<mapsto> ''data''], Other = ()\<rparr>]"
      exampleTime]
  by (simp add: restartDeployments_def restartStatefulSets_def restartDaemonSets_def
      example_defs ToLower_examples Let_def)


text \<open>
  C9. At every point of a run (the states of \<open>RunPoints\<close>, the last of which is the state
  \<open>Run\<close> leaves), the error list has at most three entries per namespace counted. The
  namespace listing is a Go slice, so it has fewer than \<open>2 ^ 63\<close> items.
\<close>

theorem errors_at_most_three_per_namespace:
  assumes "case NamespacesList (cs rc) (calls s @ [CallNow (Now tm (calls s))]) of
             Inl e \<Rightarrow> True | Inr items \<Rightarrow> length items < 2 ^ 63"
  shows "list_all (\<lambda>st. int (length (Errors (metadata st))) \<le>
            3 * sint (NamespacesProcessed (metadata st))) (RunPoints tm rc s) \<and>
         last (RunPoints tm rc s) = snd (Run tm rc s)"
proof (cases "NamespacesList (cs rc) (calls s @ [CallNow (Now tm (calls s))])")
  case (Inl e)
  then show ?thesis
    by (simp add: RunPoints_def Run_def Let_def Run_init_simps newMetadata_def)
next
  case (Inr items)
  define s1 where "s1 = (Run_init tm s)\<lparr>calls := calls (Run_init tm s) @ [CallNamespacesList]\<rparr>"
  have len: "0 + length items < 2 ^ 63" using assms Inr by simp
  have a: "NamespacesProcessed (metadata s1) = of_nat 0"
    and b: "length (Errors (metadata s1)) \<le> 3 * 0"
    by (simp_all add: s1_def Run_init_simps newMetadata_def)
  note inv = Run_points_invariant [OF a b len, of tm rc]
  have fin: "sint (NamespacesProcessed (metadata (Run_namespaces tm rc items s1))) =
      int (length items)"
    using inv len by (simp add: sint_of_nat_small)
  have pts: "RunPoints tm rc s = Run_init tm s # s1 #
      Run_points tm rc items s1 @ [Run_summary tm (Run_namespaces tm rc items s1)]"
    using Inr by (simp add: RunPoints_def Let_def s1_def Run_init_simps)
  have "list_all (\<lambda>st. int (length (Errors (metadata st))) \<le>
            3 * sint (NamespacesProcessed (metadata st))) (RunPoints tm rc s)"
    unfolding pts using inv fin
    by (simp add: Run_summary_simps s1_def Run_init_simps newMetadata_def)
  then show ?thesis by (simp add: last_RunPoints)
qed

theorem errors_at_most_three_per_namespace_witness:
  "(case NamespacesList (cs exampleOutage)
      (calls exampleStart @ [CallNow (Now exampleTime (calls exampleStart))]) of
      Inl e \<Rightarrow> True | Inr items \<Rightarrow> length items < 2 ^ 63) \<and>
   map (\<lambda>st. (length (Errors (metadata st)), sint (NamespacesProcessed (metadata st))))
     (RunPoints exampleTime exampleOutage exampleStart) =
     [(0, 0), (0, 0), (0, 0), (0, 1), (1, 1), (2, 1), (3, 1), (3, 2), (3, 2), (3, 2), (3, 2),
      (3, 2)] \<and>
   list_all (\<lambda>st. int (length (Errors (metadata st))) \<le>
      3 * sint (NamespacesProcessed (metadata st)))
     (RunPoints exampleTime exampleOutage exampleStart)"
  using errors_at_most_three_per_namespace [of exampleOutage exampleStart exampleTime]
  by (simp add: RunPoints_def run_defs example_defs exampleOutage_def ToLower_examples)

text \<open>
  C10. Whenever the listing call of a per-kind restart procedure succeeds, with the
  items of a Go slice (fewer than \<open>2 ^ 63\<close>), the procedure returns a nil error and a
  count between 0 and the number of workloads listed; with no workload listed the
  count is 0. This holds for deployments, stateful sets and daemon sets.
\<close>

theorem restart_count_within_listing:
  "(DeploymentsList (cs rc) (calls s) ns = Inr items \<longrightarrow> length items < 2 ^ 63 \<longrightarrow>
      snd (fst (restartDeployments tm rc ns s)) = None \<and>
      0 \<le> sint (fst (fst (restartDeployments tm rc ns s))) \<and>
      sint (fst (fst (restartDeployments tm rc ns s))) \<le> int (length items) \<and>
      (items = [] \<longrightarrow> fst (fst (restartDeployments tm rc ns s)) = 0)) \<and>
   (StatefulSetsList (cs rc) (calls s) ns = Inr items \<longrightarrow> length items < 2 ^ 63 \<longrightarrow>
      snd (fst (restartStatefulSets tm rc ns s)) = None \<and>
      0 \<le> sint (fst (fst (restartStatefulSets tm rc ns s))) \<and>
      sint (fst (fst (restartStatefulSets tm rc ns s))) \<le> int (length items) \<and>
      (items = [] \<longrightarrow> fst (fst (restartStatefulSets tm rc ns s)) = 0)) \<and>
   (DaemonSetsList (cs rc) (calls s) ns = Inr items \<longrightarrow> length items < 2 ^ 63 \<longrightarrow>
      snd (fst (restartDaemonSets tm rc ns s)) = None \<and>
      0 \<le> sint (fst (fst (restartDaemonSets tm rc ns s))) \<and>
      sint (fst (fst (restartDaemonSets tm rc ns s))) \<le> int (length items) \<and>
      (items = [] \<longrightarrow> fst (fst (restartDaemonSets tm rc ns s)) = 0))"
proof (intro conjI impI)
  assume ok: "DeploymentsList (cs rc) (calls s) ns = Inr items" and len: "length items < 2 ^ 63"
  note b = restartDeployments_count [OF ok len, of tm]
  from b show "snd (fst (restartDeployments tm rc ns s)) = None" by simp
  from b show "0 \<le> sint (fst (fst (restartDeployments tm rc ns s)))" by simp
  from b show "sint (fst (fst (restartDeployments tm rc ns s))) \<le> int (length items)" by simp
  show "fst (fst (restartDeployments tm rc ns s)) = 0" if "items = []"
    using ok that by (simp add: restartDeployments_def)
next
  assume ok: "StatefulSetsList (cs rc) (calls s) ns = Inr items" and len: "length items < 2 ^ 63"
  note b = restartStatefulSets_count [OF ok len, of tm]
  from b show "snd (fst (restartStatefulSets tm rc ns s)) = None" by simp
  from b show "0 \<le> sint (fst (fst (restartStatefulSets tm rc ns s)))" by simp
  from b show "sint (fst (fst (restartStatefulSets tm rc ns s))) \<le> int (length items)" by simp
  show "fst (fst (restartStatefulSets tm rc ns s)) = 0" if "items = []"
    using ok that by (simp add: restartStatefulSets_def)
next
  assume ok: "DaemonSetsList (cs rc) (calls s) ns = Inr items" and len: "length items < 2 ^ 63"
  note b = restartDaemonSets_count [OF ok len, of tm]
  from b show "snd (fst (restartDaemonSets tm rc ns s)) = None" by simp
  from b show "0 \<le> sint (fst (fst (restartDaemonSets tm rc ns s)))" by simp
  from b show "sint (fst (fst (restartDaemonSets tm rc ns s))) \<le> int (length items)" by simp
  show "fst (fst (restartDaemonSets tm rc ns s)) = 0" if "items = []"
    using ok that by (simp add: restartDaemonSets_def)
qed

theorem restart_count_within_listing_witness:
  "(DeploymentsList (cs exampleClient) (calls exampleStart) ''ns2'' =
      Inr [exampleWorkload ''db-primary'', exampleWorkload ''web''] \<and>
    length [exampleWorkload ''db-primary'', exampleWorkload ''web''] < 2 ^ 63 \<and>
    fst (restartDeployments exampleTime exampleClient ''ns2'' exampleStart) = (1, None) \<and>
    sint (1 :: go_int) \<le> 2) \<and>
   (StatefulSetsList (cs exampleClient) (calls exampleStart) ''ns1'' =
      Inr [exampleWorkload ''db-a'', exampleWorkload ''db-b'', exampleWorkload ''db-c''] \<and>
    length [exampleWorkload ''db-a'', exampleWorkload ''db-b'', exampleWorkload ''db-c'']
      < 2 ^ 63 \<and>
    fst (restartStatefulSets exampleTime exampleClient ''ns1'' exampleStart) = (2, None) \<and>
    sint (2 :: go_int) \<le> 3) \<and>
   (DaemonSetsList (cs exampleClient) (calls exampleStart) ''ns1'' = Inr [] \<and>
    fst (restartDaemonSets exampleTime exampleClient ''ns1'' exampleStart) = (0, None))"
  using restart_count_within_listing [of exampleClient exampleStart "''ns2''"
      "[exampleWorkload ''db-primary'', exampleWorkload ''web'']" exampleTime]
    restart_count_within_listing [of exampleClient exampleStart "''ns1''"
      "[exampleWorkload ''db-a'', exampleWorkload ''db-b'', exampleWorkload ''db-c'']" exampleTime]
    restart_count_within_listing [of exampleClient exampleStart "''ns1''" "[]" exampleTime]
  by (simp add: restartDeployments_def restartStatefulSets_def restartDaemonSets_def
      example_defs ToLower_examples Let_def)

end
